theory Spec2Isabelle
  imports Complex_Main
begin

section \<open>The state document, the gateway and the outcome of an effectful call\<close>

text \<open>
  The program is \<^verbatim>\<open>src/index.js\<close>. Instants are JavaScript time values:
  milliseconds since the epoch, here \<open>int\<close> (a time value is an integer of at most
  8.64e15 in size, where doubles are exact). A string is the list of the bytes of its UTF-8
  encoding: a character outside ASCII is two to four bytes, none of them below \<open>0x80\<close>.
\<close>

text \<open>One entry of \<^verbatim>\<open>state.scheduled\<close>, as \<^verbatim>\<open>schedulePing\<close> builds it.\<close>

record job =
  jid :: string
  channelId :: string
  runAtMs :: int
  message :: string
  sent :: bool
  groupKey :: "string option"

text \<open>\<^verbatim>\<open>state.config\<close>; \<open>None\<close> is \<^verbatim>\<open>null\<close>.\<close>

record config =
  pingChannelId :: "string option"
  accessRoleId :: "string option"
  aooTeamRoleId :: "string option"
  mgeChannelId :: "string option"
  mgeRoleId :: "string option"

text \<open>
  The document \<^verbatim>\<open>state\<close>: the reminder queue, the configuration, and every other
  top-level property, which are the milestone flags \<^verbatim>\<open>state[key]\<close>.
\<close>

record state =
  scheduled :: "job list"
  config :: config
  flags :: "string \<rightharpoonup> bool"

text \<open>\<^verbatim>\<open>state[key]\<close> read as a condition: absent or false is falsy.\<close>

definition flagSet :: "state \<Rightarrow> string \<Rightarrow> bool" where
  "flagSet st k = (flags st k = Some True)"

text \<open>
  One call of \<^verbatim>\<open>channel.send\<close>: the channel id, the text, and whether the gateway
  delivered it (a failed send rejects, which the caller sees as an exception).
\<close>

record attempt =
  toChannel :: string
  body :: string
  delivered :: bool

text \<open>
  Everything the operations read or write: the in-memory \<^verbatim>\<open>state\<close>, the file
  \<^verbatim>\<open>state.json\<close> as last written, the number of writes, the trace of send attempts, and
  the reentrancy flag of \<^verbatim>\<open>runCheck\<close>.
\<close>

record world =
  mem :: state
  disk :: state
  saves :: nat
  outbox :: "attempt list"
  runCheckRunning :: bool

text \<open>
  The messaging gateway as the operation in progress meets it.
  \<^verbatim>\<open>client.channels.fetch(id)\<close> rejects, resolves to \<^verbatim>\<open>null\<close>, or resolves to a
  channel whose \<^verbatim>\<open>isTextBased()\<close> is the given boolean. Whether a send is delivered may
  depend on how many sends were attempted before it, on the channel and on the text.
\<close>

datatype fetched = FetchRejects | NoChannel | Channel bool

record gateway =
  fetchChannel :: "string \<Rightarrow> fetched"
  sendOk :: "nat \<Rightarrow> string \<Rightarrow> string \<Rightarrow> bool"

text \<open>An awaited call returns a value or throws; its effects on the world stay either way.\<close>

datatype 'a outcome = Return 'a | Throw

definition send :: "gateway \<Rightarrow> string \<Rightarrow> string \<Rightarrow> world \<Rightarrow> unit outcome \<times> world" where
  "send gw ch txt w =
     (let ok = sendOk gw (length (outbox w)) ch txt;
          w' = w\<lparr>outbox := outbox w @ [\<lparr>toChannel = ch, body = txt, delivered = ok\<rparr>]\<rparr>
      in (if ok then Return () else Throw, w'))"

text \<open>
  \<^verbatim>\<open>saveState\<close> writes the whole document. A failing write is caught and logged by the
  source; the model takes the file system as working.
\<close>

definition saveState :: "world \<Rightarrow> world" where
  "saveState w = w\<lparr>disk := mem w, saves := Suc (saves w)\<rparr>"

section \<open>Numbers and strings\<close>

definition digits :: string where
  "digits = ''0123456789''"

text \<open>\<^verbatim>\<open>String(n)\<close> for an integer \<open>n\<close>.\<close>

function showNat :: "nat \<Rightarrow> string" where
  "showNat n = (if n < 10 then [digits ! n] else showNat (n div 10) @ [digits ! (n mod 10)])"
  by pat_completeness auto
termination
  by (relation "measure id") auto

declare showNat.simps [simp del]

definition showInt :: "int \<Rightarrow> string" where
  "showInt i = (if i < 0 then CHR ''-'' # showNat (nat (- i)) else showNat (nat i))"

text \<open>\<^verbatim>\<open>String(n).padStart(2, "0")\<close>.\<close>

definition pad2 :: "int \<Rightarrow> string" where
  "pad2 i = (let s = showInt i in if length s < 2 then replicate (2 - length s) CHR ''0'' @ s else s)"

text \<open>A string as a condition: \<^verbatim>\<open>null\<close>, \<^verbatim>\<open>undefined\<close> and \<^verbatim>\<open>""\<close> are falsy.\<close>

definition truthy :: "string option \<Rightarrow> bool" where
  "truthy s = (case s of None \<Rightarrow> False | Some t \<Rightarrow> t \<noteq> [])"

section \<open>Scheduled reminders\<close>

text \<open>
  \<^verbatim>\<open>schedulePing\<close>. The hexadecimal digits that \<^verbatim>\<open>Math.random()\<close> contributes to the id
  are the parameter \<open>rnd\<close>.
\<close>

definition schedulePing :: "string \<Rightarrow> int \<Rightarrow> string \<Rightarrow> string option \<Rightarrow> string \<Rightarrow> world \<Rightarrow> world" where
  "schedulePing ch runAt msg gk rnd w =
     saveState (w\<lparr>mem := (mem w)\<lparr>scheduled := scheduled (mem w) @
        [\<lparr>jid = ch @ ''_'' @ showInt runAt @ ''_'' @ rnd, channelId = ch, runAtMs = runAt,
          message = msg, sent = False, groupKey = gk\<rparr>]\<rparr>\<rparr>)"

text \<open>\<^verbatim>\<open>removeScheduledByGroupKey\<close>: the number removed and the world after.\<close>

definition removeScheduledByGroupKey :: "string option \<Rightarrow> world \<Rightarrow> nat \<times> world" where
  "removeScheduledByGroupKey gk w =
     (if \<not> truthy gk then (0, w)
      else
        let before = length (scheduled (mem w));
            w1 = w\<lparr>mem := (mem w)\<lparr>scheduled :=
                   filter (\<lambda>x. sent x \<or> groupKey x \<noteq> gk) (scheduled (mem w))\<rparr>\<rparr>;
            removed = before - length (scheduled (mem w1))
        in (removed, if removed \<noteq> 0 then saveState w1 else w1))"

text \<open>
  The body of the \<^verbatim>\<open>try\<close> in \<^verbatim>\<open>processScheduled\<close>: resolve the channel and, when it
  is there and text based, send. Both awaited calls can throw.
\<close>

definition deliverItem :: "gateway \<Rightarrow> job \<Rightarrow> world \<Rightarrow> unit outcome \<times> world" where
  "deliverItem gw item w =
     (case fetchChannel gw (channelId item) of
        FetchRejects \<Rightarrow> (Throw, w)
      | NoChannel \<Rightarrow> (Return (), w)
      | Channel tb \<Rightarrow> if tb then send gw (channelId item) (message item) w else (Return (), w))"

text \<open>\<^verbatim>\<open>try { ... } catch (e) { console.error(...) }\<close>: the exception ends there.\<close>

definition catchLog :: "unit outcome \<times> world \<Rightarrow> unit outcome \<times> world" where
  "catchLog r = (case r of (Return u, w) \<Rightarrow> (Return u, w) | (Throw, w) \<Rightarrow> (Return (), w))"

text \<open>
  The \<^verbatim>\<open>for\<close> loop of \<^verbatim>\<open>processScheduled\<close> over the items, in order. It yields the items
  as the loop leaves them (\<^verbatim>\<open>item.sent = true\<close> on the processed ones) and the variable
  \<^verbatim>\<open>changed\<close>. An exception of the body would leave the loop.
\<close>

fun sweepItems :: "gateway \<Rightarrow> int \<Rightarrow> job list \<Rightarrow> bool \<Rightarrow> world \<Rightarrow> (job list \<times> bool) outcome \<times> world" where
  "sweepItems gw nowMs [] changed w = (Return ([], changed), w)"
| "sweepItems gw nowMs (item # rest) changed w =
     (if sent item \<or> nowMs < runAtMs item then
        (case sweepItems gw nowMs rest changed w of
           (Return (rest', c), w') \<Rightarrow> (Return (item # rest', c), w')
         | (Throw, w') \<Rightarrow> (Throw, w'))
      else
        (case catchLog (deliverItem gw item w) of
           (Throw, w1) \<Rightarrow> (Throw, w1)
         | (Return u, w1) \<Rightarrow>
             (case sweepItems gw nowMs rest True w1 of
                (Return (rest', c), w') \<Rightarrow> (Return (item\<lparr>sent := True\<rparr> # rest', c), w')
              | (Throw, w') \<Rightarrow> (Throw, w'))))"

text \<open>\<^verbatim>\<open>processScheduled\<close> at the time \<open>nowMs\<close>.\<close>

definition processScheduled :: "gateway \<Rightarrow> int \<Rightarrow> world \<Rightarrow> unit outcome \<times> world" where
  "processScheduled gw nowMs w =
     (case sweepItems gw nowMs (scheduled (mem w)) False w of
        (Throw, w') \<Rightarrow> (Throw, w')
      | (Return (items, changed), w') \<Rightarrow>
          let before = length items;
              w2 = w'\<lparr>mem := (mem w')\<lparr>scheduled := filter (\<lambda>x. \<not> sent x) items\<rparr>\<rparr>;
              changed2 = (changed \<or> length (scheduled (mem w2)) \<noteq> before)
          in (Return (), if changed2 then saveState w2 else w2))"

section \<open>Calendar events and dates\<close>

text \<open>
  A \<^verbatim>\<open>VEVENT\<close> of the feed, with the fields the program reads. \<open>evStart\<close> and \<open>evEnd\<close>
  are the time values of \<^verbatim>\<open>new Date(ev.start)\<close> and \<^verbatim>\<open>new Date(ev.end)\<close>, taken to be
  valid dates; \<open>eid\<close> is \<^verbatim>\<open>ev.id\<close>.
\<close>

record calEvent =
  uid :: "string option"
  eid :: "string option"
  evStart :: int
  evEnd :: int
  description :: "string option"
  summary :: "string option"
  location :: "string option"

text \<open>
  The characters of the class \<^verbatim>\<open>\s\<close>, each in UTF-8: tab, line feed, vertical tab, form
  feed, carriage return, space, U+00A0, U+1680, U+2000 to U+200A, U+2028, U+2029, U+202F,
  U+205F, U+3000 and U+FEFF.
\<close>

definition blanks :: "string list" where
  "blanks =
     [[CHR 0x09], [CHR 0x0A], [CHR 0x0B], [CHR 0x0C], [CHR 0x0D], [CHR 0x20],
      [CHR 0xC2, CHR 0xA0], [CHR 0xE1, CHR 0x9A, CHR 0x80],
      [CHR 0xE2, CHR 0x80, CHR 0x80], [CHR 0xE2, CHR 0x80, CHR 0x81], [CHR 0xE2, CHR 0x80, CHR 0x82],
      [CHR 0xE2, CHR 0x80, CHR 0x83], [CHR 0xE2, CHR 0x80, CHR 0x84], [CHR 0xE2, CHR 0x80, CHR 0x85],
      [CHR 0xE2, CHR 0x80, CHR 0x86], [CHR 0xE2, CHR 0x80, CHR 0x87], [CHR 0xE2, CHR 0x80, CHR 0x88],
      [CHR 0xE2, CHR 0x80, CHR 0x89], [CHR 0xE2, CHR 0x80, CHR 0x8A],
      [CHR 0xE2, CHR 0x80, CHR 0xA8], [CHR 0xE2, CHR 0x80, CHR 0xA9], [CHR 0xE2, CHR 0x80, CHR 0xAF],
      [CHR 0xE2, CHR 0x81, CHR 0x9F], [CHR 0xE3, CHR 0x80, CHR 0x80], [CHR 0xEF, CHR 0xBB, CHR 0xBF]]"

text \<open>The number of bytes of the blank character at the head of a string, 0 when there is none.\<close>

definition blankWidth :: "string \<Rightarrow> nat" where
  "blankWidth s =
     (case find (\<lambda>b. take (length b) s = b) blanks of None \<Rightarrow> 0 | Some b \<Rightarrow> length b)"

text \<open>What \<^verbatim>\<open>\s*\<close> leaves of a string: the blank characters at its head are gone.\<close>

function skipBlanks :: "string \<Rightarrow> string" where
  "skipBlanks s = (if blankWidth s = 0 then s else skipBlanks (drop (blankWidth s) s))"
  by pat_completeness auto
termination
proof (relation "measure length")
  show "wf (measure length)" by simp
next
  fix s :: string
  assume "blankWidth s \<noteq> 0"
  moreover have "blankWidth [] = 0"
    by (simp add: blankWidth_def blanks_def)
  ultimately have "s \<noteq> []" by auto
  with \<open>blankWidth s \<noteq> 0\<close> show "(drop (blankWidth s) s, s) \<in> measure length"
    by simp
qed

declare skipBlanks.simps [simp del]

definition lowerCase :: "char \<Rightarrow> char" where
  "lowerCase c =
     (case map_of (zip ''ABCDEFGHIJKLMNOPQRSTUVWXYZ'' ''abcdefghijklmnopqrstuvwxyz'') c of
        Some l \<Rightarrow> l | None \<Rightarrow> c)"

text \<open>The class \<^verbatim>\<open>[a-z0-9_]\<close> under the flag \<^verbatim>\<open>i\<close>.\<close>

definition isTagChar :: "char \<Rightarrow> bool" where
  "isTagChar c = (lowerCase c \<in> set ''abcdefghijklmnopqrstuvwxyz0123456789_'')"

text \<open>
  A match of \<^verbatim>\<open>/Type:\s*([a-z0-9_]+)/i\<close> that begins at the head of the string: the
  captured group, lower-cased. The two greedy classes are disjoint, so backtracking finds
  nothing that the greedy reading misses. Under the flag \<^verbatim>\<open>i\<close> without the flag
  \<^verbatim>\<open>u\<close> a character outside ASCII never matches an ASCII letter.
\<close>

definition typeAt :: "string \<Rightarrow> string option" where
  "typeAt s =
     (if map lowerCase (take 5 s) = ''type:'' then
        (let tok = takeWhile isTagChar (skipBlanks (drop 5 s))
         in if tok = [] then None else Some (map lowerCase tok))
      else None)"

text \<open>\<^verbatim>\<open>text.match(...)\<close>: the leftmost position with a match.\<close>

fun findType :: "string \<Rightarrow> string option" where
  "findType [] = None"
| "findType (c # cs) = (case typeAt (c # cs) of Some t \<Rightarrow> Some t | None \<Rightarrow> findType cs)"

text \<open>\<^verbatim>\<open>parts.join(sep)\<close>.\<close>

fun joinWith :: "string \<Rightarrow> string list \<Rightarrow> string" where
  "joinWith sep [] = []"
| "joinWith sep [x] = x"
| "joinWith sep (x # y # ys) = x @ sep @ joinWith sep (y # ys)"

text \<open>\<^verbatim>\<open>getEventType\<close> on an event: \<^verbatim>\<open>filter(Boolean)\<close> drops absent and empty fields.\<close>

definition getEventType :: "calEvent \<Rightarrow> string option" where
  "getEventType ev =
     findType (joinWith [CHR 0x0A]
       (map the (filter truthy [description ev, summary ev, location ev])))"

definition msPerDay :: int where
  "msPerDay = 86400000"

text \<open>
  The civil date of a day number (days since 1970-01-01) in the proleptic Gregorian
  calendar: year, month from 1, day of the month. This is what \<^verbatim>\<open>getUTCFullYear\<close>,
  \<^verbatim>\<open>getUTCMonth\<close> and \<^verbatim>\<open>getUTCDate\<close> read off a time value.
\<close>

definition civilFromDays :: "int \<Rightarrow> int \<times> int \<times> int" where
  "civilFromDays z =
     (let z1 = z + 719468;
          era = z1 div 146097;
          doe = z1 mod 146097;
          yoe = (doe - doe div 1460 + doe div 36524 - doe div 146096) div 365;
          doy = doe - (365 * yoe + yoe div 4 - yoe div 100);
          mp = (5 * doy + 2) div 153;
          d = doy - (153 * mp + 2) div 5 + 1;
          m = (if mp < 10 then mp + 3 else mp - 9);
          y = yoe + era * 400
      in (if m \<le> 2 then y + 1 else y, m, d))"

definition getUTCFullYear :: "int \<Rightarrow> int" where
  "getUTCFullYear t = fst (civilFromDays (t div msPerDay))"

definition getUTCMonth :: "int \<Rightarrow> int" where
  "getUTCMonth t = fst (snd (civilFromDays (t div msPerDay))) - 1"

definition getUTCDate :: "int \<Rightarrow> int" where
  "getUTCDate t = snd (snd (civilFromDays (t div msPerDay)))"

definition getUTCHours :: "int \<Rightarrow> int" where
  "getUTCHours t = (t mod msPerDay) div 3600000"

definition getUTCMinutes :: "int \<Rightarrow> int" where
  "getUTCMinutes t = (t mod 3600000) div 60000"

definition isoDateUTC :: "int \<Rightarrow> string" where
  "isoDateUTC d =
     (let yyyy = showInt (getUTCFullYear d);
          mm = pad2 (getUTCMonth d + 1);
          dd = pad2 (getUTCDate d)
      in yyyy @ ''-'' @ mm @ ''-'' @ dd)"

definition formatUTC :: "int \<Rightarrow> string" where
  "formatUTC d =
     (let yyyy = showInt (getUTCFullYear d);
          mm = pad2 (getUTCMonth d + 1);
          dd = pad2 (getUTCDate d);
          hh = pad2 (getUTCHours d);
          mi = pad2 (getUTCMinutes d)
      in yyyy @ ''-'' @ mm @ ''-'' @ dd @ '' '' @ hh @ '':'' @ mi @ '' UTC'')"

definition addHours :: "int \<Rightarrow> int \<Rightarrow> int" where
  "addHours date h = date + h * 3600000"

definition makeKey :: "string \<Rightarrow> calEvent \<Rightarrow> string \<Rightarrow> string" where
  "makeKey prefix ev suffix =
     (let uid' = (if truthy (uid ev) then the (uid ev)
                  else if truthy (eid ev) then the (eid ev) else ''no_uid'');
          day = isoDateUTC (evStart ev)
      in prefix @ ''_'' @ uid' @ ''_'' @ day @ ''_'' @ suffix)"

text \<open>
  The day number of a civil date (year, month from 1, day of the month); a day of the month
  out of range carries over into the neighbouring months.
\<close>

definition daysFromCivil :: "int \<Rightarrow> int \<Rightarrow> int \<Rightarrow> int" where
  "daysFromCivil y m d =
     (let y1 = (if m \<le> 2 then y - 1 else y);
          era = y1 div 400;
          yoe = y1 - era * 400;
          doy = (153 * (if m > 2 then m - 3 else m + 9) + 2) div 5 + d - 1;
          doe = yoe * 365 + yoe div 4 - yoe div 100 + doy
      in era * 146097 + doe - 719468)"

section \<open>Messages\<close>

text \<open>\<^verbatim>\<open>PING\<close> with \<^verbatim>\<open>PING_TEXT\<close> unset.\<close>

definition PING :: string where
  "PING = ''@everyone''"

definition getAooRoleMention :: "config \<Rightarrow> string" where
  "getAooRoleMention cfg =
     (if truthy (aooTeamRoleId cfg) then ''<@&'' @ the (aooTeamRoleId cfg) @ ''>'' else [])"

definition getMgeChannelMention :: "config \<Rightarrow> string" where
  "getMgeChannelMention cfg =
     (if truthy (mgeChannelId cfg) then ''<#'' @ the (mgeChannelId cfg) @ ''>''
      else ''**[MGE channel not set]**'')"

definition getMgeRoleMention :: "config \<Rightarrow> string" where
  "getMgeRoleMention cfg =
     (if truthy (mgeRoleId cfg) then ''<@&'' @ the (mgeRoleId cfg) @ ''>''
      else ''**[MGE role not set]**'')"

definition aooOpenMsg :: "config \<Rightarrow> string" where
  "aooOpenMsg cfg =
     (let role = getAooRoleMention cfg
      in if role \<noteq> [] then ''AOO registration is opened, reach out to '' @ role @ '' for registration!''
         else ''AOO registration is opened. Reach out to the AOO team for registration!'')"

definition aooWarnMsg :: string where
  "aooWarnMsg = ''AOO registration will close soon, be sure you are registered!''"

definition aooClosedMsg :: string where
  "aooClosedMsg = ''AOO registration closed''"

definition mgeOpenMsg :: "config \<Rightarrow> string" where
  "mgeOpenMsg cfg =
     ''MGE registration is open, register in '' @ getMgeChannelMention cfg @
     '' channel, or reach out to '' @ getMgeRoleMention cfg @ '' !''"

definition mgeWarnMsg :: string where
  "mgeWarnMsg = ''MGE registration closes in 24 hours, don'' @ [CHR 0xE2, CHR 0x80, CHR 0x99] @
     ''t forget to apply!''"

definition mgeClosedMsg :: string where
  "mgeClosedMsg = ''MGE registration is closed''"

section \<open>Announcements\<close>

definition getPingChannelId :: "config \<Rightarrow> string option \<Rightarrow> string option" where
  "getPingChannelId cfg fallbackFromMessageChannelId =
     (if truthy (pingChannelId cfg) then pingChannelId cfg
      else if truthy fallbackFromMessageChannelId then fallbackFromMessageChannelId
      else None)"

text \<open>One statement after another: an exception skips what follows.\<close>

definition andThen :: "unit outcome \<times> world \<Rightarrow> (world \<Rightarrow> unit outcome \<times> world) \<Rightarrow> unit outcome \<times> world" where
  "andThen r f = (case r of (Return u, w) \<Rightarrow> f w | (Throw, w) \<Rightarrow> (Throw, w))"

text \<open>
  The block that \<^verbatim>\<open>runCheck\<close> repeats for each milestone, with the flag key, the time
  condition and the message text of the milestone:
  \<^verbatim>\<open>if (!state[key] && cond) { await channel.send(`${PING}\n${msg}`); state[key] = true; saveState(); }\<close>
\<close>

definition milestone :: "gateway \<Rightarrow> string \<Rightarrow> string \<Rightarrow> bool \<Rightarrow> string \<Rightarrow> world \<Rightarrow> unit outcome \<times> world" where
  "milestone gw ch key cond msg w =
     (if \<not> flagSet (mem w) key \<and> cond then
        andThen (send gw ch (PING @ [CHR 0x0A] @ msg) w)
          (\<lambda>w1. (Return (), saveState (w1\<lparr>mem := (mem w1)\<lparr>flags := (flags (mem w1))(key \<mapsto> True)\<rparr>\<rparr>)))
      else (Return (), w))"

text \<open>The branch \<^verbatim>\<open>type === "ark_registration"\<close> of the loop body.\<close>

definition checkArkRegistration :: "gateway \<Rightarrow> string \<Rightarrow> int \<Rightarrow> calEvent \<Rightarrow> world \<Rightarrow> unit outcome \<times> world" where
  "checkArkRegistration gw ch now ev w =
     (let start = evStart ev;
          end' = evEnd ev;
          openKey = makeKey ''AOO_REG'' ev ''open_at_start'';
          warnKey = makeKey ''AOO_REG'' ev ''6h_before_end'';
          closeKey = makeKey ''AOO_REG'' ev ''closed_at_end'';
          warnTime = addHours end' (- 6)
      in andThen (milestone gw ch openKey (now \<ge> start) (aooOpenMsg (config (mem w))) w)
          (\<lambda>w1. andThen (milestone gw ch warnKey (now \<ge> warnTime \<and> now < end') aooWarnMsg w1)
          (\<lambda>w2. milestone gw ch closeKey (now \<ge> end') aooClosedMsg w2)))"

text \<open>The branch \<^verbatim>\<open>type === "mge"\<close> of the loop body.\<close>

definition checkMge :: "gateway \<Rightarrow> string \<Rightarrow> int \<Rightarrow> calEvent \<Rightarrow> world \<Rightarrow> unit outcome \<times> world" where
  "checkMge gw ch now ev w =
     (let start = evStart ev;
          end' = evEnd ev;
          openKey = makeKey ''MGE'' ev ''open_24h_after_end'';
          warnKey = makeKey ''MGE'' ev ''48h_before_start_warn_close_24h'';
          closeKey = makeKey ''MGE'' ev ''closed_24h_before_start'';
          openTime = addHours end' 24;
          warnTime = addHours start (- 48);
          closeTime = addHours start (- 24)
      in andThen (milestone gw ch openKey (now \<ge> openTime) (mgeOpenMsg (config (mem w))) w)
          (\<lambda>w1. andThen (milestone gw ch warnKey (now \<ge> warnTime \<and> now < closeTime) mgeWarnMsg w1)
          (\<lambda>w2. milestone gw ch closeKey (now \<ge> closeTime \<and> now < start) mgeClosedMsg w2)))"

text \<open>The body of \<^verbatim>\<open>for (const ev of events)\<close>.\<close>

definition checkEvent :: "gateway \<Rightarrow> string \<Rightarrow> int \<Rightarrow> calEvent \<Rightarrow> world \<Rightarrow> unit outcome \<times> world" where
  "checkEvent gw ch now ev w =
     (case getEventType ev of
        None \<Rightarrow> (Return (), w)
      | Some type \<Rightarrow>
          andThen (if type = ''ark_registration'' then checkArkRegistration gw ch now ev w
                   else (Return (), w))
            (\<lambda>w1. if type = ''mge'' then checkMge gw ch now ev w1 else (Return (), w1)))"

fun checkEvents :: "gateway \<Rightarrow> string \<Rightarrow> int \<Rightarrow> calEvent list \<Rightarrow> world \<Rightarrow> unit outcome \<times> world" where
  "checkEvents gw ch now [] w = (Return (), w)"
| "checkEvents gw ch now (ev # evs) w =
     (case checkEvent gw ch now ev w of
        (Return u, w1) \<Rightarrow> checkEvents gw ch now evs w1
      | (Throw, w1) \<Rightarrow> (Throw, w1))"

text \<open>
  The \<^verbatim>\<open>try\<close> block of \<^verbatim>\<open>runCheck\<close> at the time \<open>now\<close>. The feed is what
  \<^verbatim>\<open>fetchEvents\<close> resolves to, the \<^verbatim>\<open>VEVENT\<close> entries in feed order, or \<open>None\<close> when it
  rejects.
\<close>

definition runCheckTry :: "gateway \<Rightarrow> int \<Rightarrow> calEvent list option \<Rightarrow> world \<Rightarrow> unit outcome \<times> world" where
  "runCheckTry gw now feed w =
     (case getPingChannelId (config (mem w)) None of
        None \<Rightarrow> (Return (), w)
      | Some pingChannel \<Rightarrow>
          (case fetchChannel gw pingChannel of
             FetchRejects \<Rightarrow> (Throw, w)
           | NoChannel \<Rightarrow> (Return (), w)
           | Channel tb \<Rightarrow>
               if \<not> tb then (Return (), w)
               else (case feed of
                       None \<Rightarrow> (Throw, w)
                     | Some events \<Rightarrow> checkEvents gw pingChannel now events w)))"

text \<open>
  \<^verbatim>\<open>runCheck\<close>: the guard, the \<^verbatim>\<open>try\<close> with its \<^verbatim>\<open>catch\<close> that logs, and the
  \<^verbatim>\<open>finally\<close> that lowers the guard.
\<close>

definition runCheck :: "gateway \<Rightarrow> int \<Rightarrow> calEvent list option \<Rightarrow> world \<Rightarrow> unit outcome \<times> world" where
  "runCheck gw now feed w =
     (if runCheckRunning w then (Return (), w)
      else
        (case catchLog (runCheckTry gw now feed (w\<lparr>runCheckRunning := True\<rparr>)) of
           (r, w1) \<Rightarrow> (r, w1\<lparr>runCheckRunning := False\<rparr>)))"


section \<open>The dropdown flow\<close>

definition AOO_TYPES :: "string list" where
  "AOO_TYPES = [''ark_battle'', ''aoo'']"

text \<open>The object that \<^verbatim>\<open>getNextAooRunEvent\<close> maps an event to.\<close>

record aooRun =
  runUid :: string
  runStart :: int
  runEnd :: int

text \<open>
  \<^verbatim>\<open>getNextAooRunEvent\<close> on the fetched events at the time \<open>now\<close>. \<^verbatim>\<open>Array.prototype.sort\<close>
  is stable, as \<open>sort_key\<close> is; \<open>None\<close> is \<^verbatim>\<open>null\<close>.
\<close>

definition getNextAooRunEvent :: "int \<Rightarrow> calEvent list \<Rightarrow> aooRun option" where
  "getNextAooRunEvent now events =
     (let aoo = sort_key runStart
            (filter (\<lambda>x. runEnd x > now)
              (map (\<lambda>ev. \<lparr>runUid = (if truthy (uid ev) then the (uid ev)
                                      else if truthy (eid ev) then the (eid ev) else ''no_uid''),
                           runStart = evStart ev, runEnd = evEnd ev\<rparr>)
                (filter (\<lambda>ev. case getEventType ev of None \<Rightarrow> False | Some t \<Rightarrow> t \<in> set AOO_TYPES)
                   events)))
      in case aoo of [] \<Rightarrow> None | x # xs \<Rightarrow> Some x)"

text \<open>
  \<^verbatim>\<open>Date.UTC(d.getUTCFullYear(), d.getUTCMonth(), d.getUTCDate(), 0, 0, 0)\<close> for a valid date
  \<open>d\<close>: the midnight that begins the UTC day of \<open>d\<close>, except that \<^verbatim>\<open>Date.UTC\<close> reads a year
  from 0 to 99 as a year of the twentieth century.
\<close>

definition utcMidnight :: "int \<Rightarrow> int" where
  "utcMidnight d =
     (let y = getUTCFullYear d
      in if 0 \<le> y \<and> y \<le> 99
         then daysFromCivil (1900 + y) (getUTCMonth d + 1) (getUTCDate d) * msPerDay
         else (d div msPerDay) * msPerDay)"

text \<open>
  The \<^verbatim>\<open>while\<close> loop of \<^verbatim>\<open>listUtcDatesInRange\<close>; \<^verbatim>\<open>d.setUTCDate(d.getUTCDate() + 1)\<close>
  moves \<open>d\<close> to the same time of the next UTC day.
\<close>

function datesLoop :: "int \<Rightarrow> int \<Rightarrow> int list \<Rightarrow> int list" where
  "datesLoop d endDay dates =
     (if d < endDay then datesLoop (d + msPerDay) endDay (dates @ [d]) else dates)"
  by pat_completeness auto
termination
  by (relation "measure (\<lambda>(d, endDay, dates). nat (endDay - d))") (auto simp: msPerDay_def)

declare datesLoop.simps [simp del]

definition listUtcDatesInRange :: "int \<Rightarrow> int \<Rightarrow> int list" where
  "listUtcDatesInRange start end' = datesLoop (utcMidnight start) (utcMidnight end') []"

text \<open>A select menu: its custom id, its placeholder, and its options as label and value.\<close>

record selectMenu =
  menuId :: string
  placeholder :: string
  menuOptions :: "(string \<times> string) list"

definition buildDateSelect :: "int \<Rightarrow> int \<Rightarrow> int list \<Rightarrow> selectMenu" where
  "buildDateSelect startMs endMs dates =
     \<lparr>menuId = ''aoo_date|'' @ showInt startMs @ ''|'' @ showInt endMs,
      placeholder = ''Select AOO date (UTC)'',
      menuOptions = map (\<lambda>d. (isoDateUTC d, isoDateUTC d)) (take 25 dates)\<rparr>"

text \<open>\<^verbatim>\<open>str.split(sep)\<close> for a separator of one character.\<close>

fun splitOn :: "char \<Rightarrow> string \<Rightarrow> string list" where
  "splitOn sep [] = [[]]"
| "splitOn sep (c # cs) =
     (if c = sep then [] # splitOn sep cs
      else (case splitOn sep cs of [] \<Rightarrow> [[c]] | p # ps \<Rightarrow> (c # p) # ps))"

text \<open>An array element, \<open>None\<close> being \<^verbatim>\<open>undefined\<close>.\<close>

definition element :: "'a list \<Rightarrow> nat \<Rightarrow> 'a option" where
  "element xs i = (if i < length xs then Some (xs ! i) else None)"

text \<open>
  What the user gets back: nothing, \<^verbatim>\<open>reply\<close> with a text, \<^verbatim>\<open>reply\<close> with a text and a
  menu, or \<^verbatim>\<open>update\<close> of the message in place with a text and its components.
\<close>

datatype response =
    NoResponse
  | Reply string
  | ReplyMenu string selectMenu
  | Update string "selectMenu list"

section \<open>Numbers of the dropdown flow and the library around it\<close>

text \<open>
  A JavaScript number: \<open>NaN\<close>, an infinity with its sign (\<open>True\<close> for the positive one), or
  a finite value. Comparing numbers compares their values, and a comparison with \<open>NaN\<close> is
  false.
\<close>

datatype jsnum = NaN | Infinite bool | Finite real

text \<open>
  What the handlers take from the JavaScript runtime and from the component builders of the
  library, as parameters of the model: \<^verbatim>\<open>Number(x)\<close> of a string or of \<^verbatim>\<open>undefined\<close>
  (\<open>None\<close>), \<^verbatim>\<open>n - 1\<close>, \<^verbatim>\<open>Date.UTC(y, m, d, h, 0, 0, 0)\<close> (a time value, or \<open>None\<close> for
  \<open>NaN\<close>), the text of a number in a template literal, whether the builder accepts a
  menu (it throws on one it refuses, such as a custom id that is too long), and whether a
  reply or an update goes through (the call rejects when it does not).
\<close>

record runtime =
  toNumber :: "string option \<Rightarrow> jsnum"
  minus1 :: "jsnum \<Rightarrow> jsnum"
  dateUTC :: "jsnum \<Rightarrow> jsnum \<Rightarrow> jsnum \<Rightarrow> jsnum \<Rightarrow> int option"
  numberText :: "jsnum \<Rightarrow> string"
  builds :: "selectMenu \<Rightarrow> bool"
  answers :: "response \<Rightarrow> bool"

text \<open>\<^verbatim>\<open>a >= b\<close> and \<^verbatim>\<open>a < b\<close> for a time value or \<open>NaN\<close> on the left and a number on the right.\<close>

definition numGe :: "int option \<Rightarrow> jsnum \<Rightarrow> bool" where
  "numGe a b =
     (case a of
        None \<Rightarrow> False
      | Some t \<Rightarrow> (case b of NaN \<Rightarrow> False | Infinite positive \<Rightarrow> \<not> positive
                    | Finite x \<Rightarrow> real_of_int t \<ge> x))"

definition numLt :: "int option \<Rightarrow> jsnum \<Rightarrow> bool" where
  "numLt a b =
     (case a of
        None \<Rightarrow> False
      | Some t \<Rightarrow> (case b of NaN \<Rightarrow> False | Infinite positive \<Rightarrow> positive
                    | Finite x \<Rightarrow> real_of_int t < x))"

text \<open>
  \<^verbatim>\<open>await interaction.reply(...)\<close> and \<^verbatim>\<open>await interaction.update(...)\<close>: the response
  goes through, or the call rejects and the handler is left by an exception.
\<close>

definition respond :: "runtime \<Rightarrow> response \<Rightarrow> 'a \<Rightarrow> response outcome \<times> 'a" where
  "respond rt r w = (if answers rt r then (Return r, w) else (Throw, w))"

text \<open>
  \<^verbatim>\<open>const [yyyy, mm, dd] = dateISO.split("-").map((x) => Number(x))\<close> followed by
  \<^verbatim>\<open>Date.UTC(yyyy, mm - 1, dd, h, 0, 0, 0)\<close>; a missing part is \<^verbatim>\<open>undefined\<close>.
\<close>

definition utcOfDateHour :: "runtime \<Rightarrow> string \<Rightarrow> jsnum \<Rightarrow> int option" where
  "utcOfDateHour rt dateISO h =
     (let nums = map (\<lambda>x. toNumber rt (Some x)) (splitOn CHR ''-'' dateISO);
          yyyy = (case element nums 0 of None \<Rightarrow> toNumber rt None | Some n \<Rightarrow> n);
          mm = (case element nums 1 of None \<Rightarrow> toNumber rt None | Some n \<Rightarrow> n);
          dd = (case element nums 2 of None \<Rightarrow> toNumber rt None | Some n \<Rightarrow> n)
      in dateUTC rt yyyy (minus1 rt mm) dd h)"

text \<open>The \<^verbatim>\<open>for\<close> loop of \<^verbatim>\<open>buildHourSelect\<close> over the hours \<open>h, h + 1, ..., 23\<close>.\<close>

function hourOptions :: "runtime \<Rightarrow> jsnum \<Rightarrow> jsnum \<Rightarrow> string \<Rightarrow> int \<Rightarrow> (string \<times> string) list \<Rightarrow> (string \<times> string) list" where
  "hourOptions rt startMs endMs dateISO h options =
     (if h < 24 then
        (let t = utcOfDateHour rt dateISO (Finite (real_of_int h))
         in hourOptions rt startMs endMs dateISO (h + 1)
              (if numGe t startMs \<and> numLt t endMs
               then options @ [(pad2 h @ '':00 UTC'', showInt h)] else options))
      else options)"
  by pat_completeness auto
termination
  by (relation "measure (\<lambda>(rt, startMs, endMs, dateISO, h, options). nat (24 - h))") auto

declare hourOptions.simps [simp del]

text \<open>The menu that \<^verbatim>\<open>buildHourSelect\<close> asks the builder for.\<close>

definition buildHourSelect :: "runtime \<Rightarrow> jsnum \<Rightarrow> jsnum \<Rightarrow> string \<Rightarrow> selectMenu" where
  "buildHourSelect rt startMs endMs dateISO =
     (let options = hourOptions rt startMs endMs dateISO 0 []
      in \<lparr>menuId = ''aoo_hour|'' @ numberText rt startMs @ ''|'' @ numberText rt endMs @ ''|'' @ dateISO,
          placeholder = ''Select AOO start hour (UTC)'',
          menuOptions = (if options \<noteq> [] then options else [(''No valid hours'', ''none'')])\<rparr>)"

text \<open>A guild member as the access check sees it, and a component interaction.\<close>

record member =
  isAdministrator :: bool
  memberRoles :: "string list"

record interaction =
  isStringSelectMenu :: bool
  isRepliable :: bool
  invoker :: "member option"
  customId :: string
  selected :: "string list"
  inGuildId :: "string option"
  inChannelId :: string
  inUserId :: string

definition isAdmin :: "member option \<Rightarrow> bool" where
  "isAdmin m = (case m of None \<Rightarrow> False | Some mb \<Rightarrow> isAdministrator mb)"

definition canUseCommands :: "config \<Rightarrow> member option \<Rightarrow> bool" where
  "canUseCommands cfg m =
     (if \<not> truthy (accessRoleId cfg) then isAdmin m
      else (case m of None \<Rightarrow> False | Some mb \<Rightarrow> the (accessRoleId cfg) \<in> set (memberRoles mb)))"

definition crossMark :: string where
  "crossMark = [CHR 0xE2, CHR 0x9D, CHR 0x8C]"

definition checkMark :: string where
  "checkMark = [CHR 0xE2, CHR 0x9C, CHR 0x85]"

definition emDash :: string where
  "emDash = [CHR 0xE2, CHR 0x80, CHR 0x94]"

definition rightArrow :: string where
  "rightArrow = [CHR 0xE2, CHR 0x86, CHR 0x92]"

text \<open>
  The branch \<^verbatim>\<open>id.startsWith("aoo_date|")\<close> of the interaction handler; a menu that the
  builder refuses is an exception.
\<close>

definition dateChosen :: "runtime \<Rightarrow> interaction \<Rightarrow> world \<Rightarrow> response outcome \<times> world" where
  "dateChosen rt i w =
     (let parts = splitOn CHR ''|'' (customId i);
          startMs = toNumber rt (element parts 1);
          endMs = toNumber rt (element parts 2)
      in case element (selected i) 0 of
           None \<Rightarrow> respond rt (Reply ''No date selected.'') w
         | Some dateISO \<Rightarrow>
             if dateISO = [] then respond rt (Reply ''No date selected.'') w
             else
               (let hourRow = buildHourSelect rt startMs endMs dateISO
                in if \<not> builds rt hourRow then (Throw, w)
                   else respond rt (Update (''Selected date: **'' @ dateISO @ ''** (UTC)'' @ [CHR 0x0A] @
                      ''Now select the hour (UTC) you want AOO to start.'') [hourRow]) w))"

text \<open>
  The branch \<^verbatim>\<open>id.startsWith("aoo_hour|")\<close> at the time \<open>nowMs\<close>; \<open>rnd1\<close> and \<open>rnd2\<close> are the
  random parts of the ids of the two jobs. \<^verbatim>\<open>dateISO.split\<close> throws when the id has no
  fourth part. Past the window check the instant is a time value, not \<open>NaN\<close>.
\<close>

definition hourChosen :: "runtime \<Rightarrow> int \<Rightarrow> string \<Rightarrow> string \<Rightarrow> interaction \<Rightarrow> world \<Rightarrow> response outcome \<times> world" where
  "hourChosen rt nowMs rnd1 rnd2 i w =
     (let parts = splitOn CHR ''|'' (customId i);
          startMs = toNumber rt (element parts 1);
          endMs = toNumber rt (element parts 2)
      in case element (selected i) 0 of
           None \<Rightarrow> respond rt (Reply ''No valid hour selected.'') w
         | Some hourStr \<Rightarrow>
             if hourStr = [] \<or> hourStr = ''none'' then respond rt (Reply ''No valid hour selected.'') w
             else
               (case element parts 3 of
                  None \<Rightarrow> (Throw, w)
                | Some dateISO \<Rightarrow>
                    (case utcOfDateHour rt dateISO (toNumber rt (Some hourStr)) of
                       None \<Rightarrow> respond rt (Reply ''That hour is outside the AOO event window. Try again.'') w
                     | Some aooStartMs \<Rightarrow>
                         if \<not> (numGe (Some aooStartMs) startMs \<and> numLt (Some aooStartMs) endMs) then
                           respond rt (Reply ''That hour is outside the AOO event window. Try again.'') w
                         else
                           (let thirtyMs = aooStartMs - 30 * 60 * 1000;
                                tenMs = aooStartMs - 10 * 60 * 1000;
                                channel = inChannelId i;
                                groupKey = ''aoo:'' @ (case inGuildId i of None \<Rightarrow> ''null'' | Some g \<Rightarrow> g) @
                                           '':'' @ channel @ '':'' @ inUserId i;
                                w1 = snd (removeScheduledByGroupKey (Some groupKey) w);
                                w2 = (if thirtyMs > nowMs then
                                        schedulePing channel thirtyMs
                                          (PING @ [CHR 0x0A] @ ''AOO starts in **30 minutes** '' @ emDash @
                                           '' get ready! (Start: '' @ formatUTC aooStartMs @ '')'')
                                          (Some groupKey) rnd1 w1
                                      else w1);
                                w3 = (if tenMs > nowMs then
                                        schedulePing channel tenMs
                                          (PING @ [CHR 0x0A] @ ''AOO starts in **10 minutes** '' @ emDash @
                                           '' be ready! (Start: '' @ formatUTC aooStartMs @ '')'')
                                          (Some groupKey) rnd2 w2
                                      else w2);
                                scheduledCount = (if thirtyMs > nowMs then 1 else 0) +
                                                 (if tenMs > nowMs then 1 else (0::int));
                                startText = formatUTC aooStartMs;
                                note = (if scheduledCount = 0
                                        then ''Both reminder times are already in the past, so nothing was scheduled.''
                                        else ''Scheduled **'' @ showInt scheduledCount @
                                             ''** reminder(s). (Overwrote your previous AOO selection in this channel)'')
                            in respond rt (Update (checkMark @ '' AOO start selected: **'' @ startText @ ''**'' @
                                          [CHR 0x0A] @ note) []) w3))))"

text \<open>The \<^verbatim>\<open>try\<close> block of the \<^verbatim>\<open>interactionCreate\<close> handler.\<close>

definition interactionTry :: "runtime \<Rightarrow> int \<Rightarrow> string \<Rightarrow> string \<Rightarrow> interaction \<Rightarrow> world \<Rightarrow> response outcome \<times> world" where
  "interactionTry rt nowMs rnd1 rnd2 i w =
     (if \<not> isStringSelectMenu i then (Return NoResponse, w)
      else if \<not> canUseCommands (config (mem w)) (invoker i) then
        respond rt (Reply (if truthy (accessRoleId (config (mem w)))
           then crossMark @ '' You don'' @ [CHR 0xE2, CHR 0x80, CHR 0x99] @ ''t have permission to use this menu.''
           else crossMark @ '' Access role not set yet. Only **Admins** can use this menu right now.'')) w
      else if take 9 (customId i) = ''aoo_date|'' then dateChosen rt i w
      else if take 9 (customId i) = ''aoo_hour|'' then hourChosen rt nowMs rnd1 rnd2 i w
      else (Return NoResponse, w))"

text \<open>
  The handler with its \<^verbatim>\<open>catch\<close>, which replies when the interaction can be replied to, a
  failure of this reply being swallowed. The result is the response that went through.
\<close>

definition interactionCreate :: "runtime \<Rightarrow> int \<Rightarrow> string \<Rightarrow> string \<Rightarrow> interaction \<Rightarrow> world \<Rightarrow> response \<times> world" where
  "interactionCreate rt nowMs rnd1 rnd2 i w =
     (case interactionTry rt nowMs rnd1 rnd2 i w of
        (Return r, w1) \<Rightarrow> (r, w1)
      | (Throw, w1) \<Rightarrow>
          (if isRepliable i \<and> answers rt (Reply ''Error handling selection.'')
           then Reply ''Error handling selection.'' else NoResponse, w1))"

text \<open>
  The command \<^verbatim>\<open>aoo\<close> of the \<^verbatim>\<open>messageCreate\<close> handler, past the checks of author, guild,
  prefix and permission, at the time \<open>now\<close>: the \<^verbatim>\<open>try\<close> block first, \<open>None\<close> being a feed
  that cannot be fetched, then the handler with its \<^verbatim>\<open>catch\<close>.
\<close>

definition aooTry :: "runtime \<Rightarrow> int \<Rightarrow> calEvent list option \<Rightarrow> response outcome" where
  "aooTry rt now feed =
     (case feed of
        None \<Rightarrow> Throw
      | Some events \<Rightarrow>
          (case getNextAooRunEvent now events of
             None \<Rightarrow> fst (respond rt
                      (Reply (''No upcoming/ongoing AOO run event found. Make sure the calendar event has '' @
                              ''`Type: ark_battle` (or `Type: aoo`).'')) ())
           | Some aoo \<Rightarrow>
               (let startMs = runStart aoo;
                    endMs = runEnd aoo;
                    dates = listUtcDatesInRange (runStart aoo) (runEnd aoo)
                in if dates = [] then
                     fst (respond rt (Reply ''AOO event has no selectable dates (check start/end).'') ())
                   else if \<not> builds rt (buildDateSelect startMs endMs dates) then Throw
                   else fst (respond rt (ReplyMenu
                     (''AOO event window (UTC): **'' @ formatUTC (runStart aoo) @ ''** '' @ rightArrow @
                      '' **'' @ formatUTC (runEnd aoo) @ ''**'' @ [CHR 0x0A] @
                      ''Select the date you want for the AOO start time:'')
                     (buildDateSelect startMs endMs dates)) ()))))"

definition aooCommand :: "runtime \<Rightarrow> int \<Rightarrow> calEvent list option \<Rightarrow> response" where
  "aooCommand rt now feed =
     (case aooTry rt now feed of
        Return r \<Rightarrow> r
      | Throw \<Rightarrow> (if answers rt (Reply ''Error while processing command.'')
                  then Reply ''Error while processing command.'' else NoResponse))"

section \<open>Every operation on the state\<close>

text \<open>The configuration commands of the \<^verbatim>\<open>messageCreate\<close> handler, each followed by a save.\<close>

datatype command =
    SetAccessRole string
  | SetPingChannel string
  | SetAooTeamRole string
  | ClearAooTeamRole
  | SetMgeChannel string
  | SetMgeRole string

definition configCommand :: "command \<Rightarrow> world \<Rightarrow> world" where
  "configCommand c w =
     (let cfg = config (mem w);
          cfg' = (case c of
                    SetAccessRole r \<Rightarrow> cfg\<lparr>accessRoleId := Some r\<rparr>
                  | SetPingChannel ch \<Rightarrow> cfg\<lparr>pingChannelId := Some ch\<rparr>
                  | SetAooTeamRole r \<Rightarrow> cfg\<lparr>aooTeamRoleId := Some r\<rparr>
                  | ClearAooTeamRole \<Rightarrow> cfg\<lparr>aooTeamRoleId := None\<rparr>
                  | SetMgeChannel ch \<Rightarrow> cfg\<lparr>mgeChannelId := Some ch\<rparr>
                  | SetMgeRole r \<Rightarrow> cfg\<lparr>mgeRoleId := Some r\<rparr>)
      in saveState (w\<lparr>mem := (mem w)\<lparr>config := cfg'\<rparr>\<rparr>))"

text \<open>
  A start of the process: \<^verbatim>\<open>loadState\<close> reads the file back, the guard starts lowered,
  and the document is saved once.
\<close>

definition restart :: "world \<Rightarrow> world" where
  "restart w = saveState (w\<lparr>mem := disk w, runCheckRunning := False\<rparr>)"

datatype operation =
    Restart
  | Command command
  | Poll gateway int "calEvent list option"
  | Sweep gateway int
  | Schedule string int string "string option" string
  | CancelGroup "string option"
  | Interaction runtime int string string interaction

fun perform :: "operation \<Rightarrow> world \<Rightarrow> world" where
  "perform Restart w = restart w"
| "perform (Command c) w = configCommand c w"
| "perform (Poll gw now feed) w = snd (runCheck gw now feed w)"
| "perform (Sweep gw nowMs) w = snd (processScheduled gw nowMs w)"
| "perform (Schedule ch runAt msg gk rnd) w = schedulePing ch runAt msg gk rnd w"
| "perform (CancelGroup gk) w = snd (removeScheduledByGroupKey gk w)"
| "perform (Interaction rt nowMs rnd1 rnd2 i) w = snd (interactionCreate rt nowMs rnd1 rnd2 i w)"

fun performAll :: "operation list \<Rightarrow> world \<Rightarrow> world" where
  "performAll [] w = w"
| "performAll (op # ops) w = performAll ops (perform op w)"

section \<open>The vocabulary of the properties\<close>

text \<open>The send attempts that an operation added to the trace.\<close>

definition fresh :: "world \<Rightarrow> world \<Rightarrow> attempt list" where
  "fresh w w' = drop (length (outbox w)) (outbox w')"

text \<open>A job that a sweep at \<open>nowMs\<close> processes, and a job whose channel resolves to a text channel.\<close>

definition due :: "int \<Rightarrow> job \<Rightarrow> bool" where
  "due nowMs x = (\<not> sent x \<and> runAtMs x \<le> nowMs)"

definition reachable :: "gateway \<Rightarrow> job \<Rightarrow> bool" where
  "reachable gw x = (fetchChannel gw (channelId x) = Channel True)"

text \<open>
  The two kinds of window and the three milestones of the specification's table. The type tag
  \<^verbatim>\<open>ark_registration\<close> marks a registration window, \<^verbatim>\<open>mge\<close> a deferred window.
\<close>

datatype windowKind = RegistrationWindow | DeferredWindow

datatype milestoneKind = Opened | Warning | Closed

definition windowKindOf :: "calEvent \<Rightarrow> windowKind option" where
  "windowKindOf ev =
     (if getEventType ev = Some ''ark_registration'' then Some RegistrationWindow
      else if getEventType ev = Some ''mge'' then Some DeferredWindow
      else None)"

text \<open>
  The trigger column of the specification's table, written from its words, for a window from
  \<open>s\<close> to \<open>e\<close> at the time \<open>now\<close>, in milliseconds.
\<close>

fun tableTrigger :: "windowKind \<Rightarrow> milestoneKind \<Rightarrow> int \<Rightarrow> int \<Rightarrow> int \<Rightarrow> bool" where
  "tableTrigger RegistrationWindow Opened s e now = (now \<ge> s)"
| "tableTrigger RegistrationWindow Warning s e now = (e - 6 * 3600000 \<le> now \<and> now < e)"
| "tableTrigger RegistrationWindow Closed s e now = (now \<ge> e)"
| "tableTrigger DeferredWindow Opened s e now = (now \<ge> e + 24 * 3600000)"
| "tableTrigger DeferredWindow Warning s e now = (s - 48 * 3600000 \<le> now \<and> now < s - 24 * 3600000)"
| "tableTrigger DeferredWindow Closed s e now = (s - 24 * 3600000 \<le> now \<and> now < s)"

text \<open>The flag key and the text that the source gives each milestone.\<close>

fun flagKey :: "windowKind \<Rightarrow> milestoneKind \<Rightarrow> calEvent \<Rightarrow> string" where
  "flagKey RegistrationWindow Opened ev = makeKey ''AOO_REG'' ev ''open_at_start''"
| "flagKey RegistrationWindow Warning ev = makeKey ''AOO_REG'' ev ''6h_before_end''"
| "flagKey RegistrationWindow Closed ev = makeKey ''AOO_REG'' ev ''closed_at_end''"
| "flagKey DeferredWindow Opened ev = makeKey ''MGE'' ev ''open_24h_after_end''"
| "flagKey DeferredWindow Warning ev = makeKey ''MGE'' ev ''48h_before_start_warn_close_24h''"
| "flagKey DeferredWindow Closed ev = makeKey ''MGE'' ev ''closed_24h_before_start''"

fun messageOf :: "config \<Rightarrow> windowKind \<Rightarrow> milestoneKind \<Rightarrow> string" where
  "messageOf cfg RegistrationWindow Opened = aooOpenMsg cfg"
| "messageOf cfg RegistrationWindow Warning = aooWarnMsg"
| "messageOf cfg RegistrationWindow Closed = aooClosedMsg"
| "messageOf cfg DeferredWindow Opened = mgeOpenMsg cfg"
| "messageOf cfg DeferredWindow Warning = mgeWarnMsg"
| "messageOf cfg DeferredWindow Closed = mgeClosedMsg"

definition announcement :: "config \<Rightarrow> windowKind \<Rightarrow> milestoneKind \<Rightarrow> string" where
  "announcement cfg K m = PING @ [CHR 0x0A] @ messageOf cfg K m"

text \<open>
  The milestones of a feed in the order in which a poll cycle visits them: event by event,
  and opened, warning, closed within an event.
\<close>

type_synonym stone = "calEvent \<times> windowKind \<times> milestoneKind"

definition stonesOf :: "calEvent \<Rightarrow> stone list" where
  "stonesOf ev =
     (case windowKindOf ev of
        None \<Rightarrow> []
      | Some K \<Rightarrow> map (\<lambda>m. (ev, K, m)) [Opened, Warning, Closed])"

definition stones :: "calEvent list \<Rightarrow> stone list" where
  "stones evs = concat (map stonesOf evs)"

fun keyOf :: "stone \<Rightarrow> string" where
  "keyOf (ev, K, m) = flagKey K m ev"

fun triggered :: "int \<Rightarrow> stone \<Rightarrow> bool" where
  "triggered now (ev, K, m) = tableTrigger K m (evStart ev) (evEnd ev) now"

fun textOf :: "config \<Rightarrow> stone \<Rightarrow> string" where
  "textOf cfg (ev, K, m) = announcement cfg K m"

text \<open>
  A poll can start: the guard is down and the configured channel resolves to a text channel.
  A reliable gateway delivers every send.
\<close>

definition ready :: "gateway \<Rightarrow> world \<Rightarrow> bool" where
  "ready gw w =
     (\<not> runCheckRunning w \<and>
      (case getPingChannelId (config (mem w)) None of
         None \<Rightarrow> False
       | Some ch \<Rightarrow> fetchChannel gw ch = Channel True))"

definition reliable :: "gateway \<Rightarrow> bool" where
  "reliable gw = (\<forall>n ch txt. sendOk gw n ch txt)"

text \<open>
  A list of milestone blocks run one after another, each given by its key, its condition and
  its text: the shape of a whole poll cycle.
\<close>

fun runBlocks :: "gateway \<Rightarrow> string \<Rightarrow> (string \<times> bool \<times> string) list \<Rightarrow> world \<Rightarrow> unit outcome \<times> world" where
  "runBlocks gw ch [] w = (Return (), w)"
| "runBlocks gw ch ((k, c, m) # bs) w =
     (case milestone gw ch k c m w of
        (Return u, w1) \<Rightarrow> runBlocks gw ch bs w1
      | (Throw, w1) \<Rightarrow> (Throw, w1))"

definition blocks :: "config \<Rightarrow> int \<Rightarrow> calEvent list \<Rightarrow> (string \<times> bool \<times> string) list" where
  "blocks cfg now evs =
     map (\<lambda>(ev, K, m). (flagKey K m ev, tableTrigger K m (evStart ev) (evEnd ev) now, messageOf cfg K m))
       (stones evs)"

text \<open>
  The identifier that \<^verbatim>\<open>makeKey\<close> and \<^verbatim>\<open>getNextAooRunEvent\<close> take from an event:
  \<^verbatim>\<open>ev.uid || ev.id || "no_uid"\<close>.
\<close>

definition uidOf :: "calEvent \<Rightarrow> string" where
  "uidOf ev = (if truthy (uid ev) then the (uid ev)
               else if truthy (eid ev) then the (eid ev) else ''no_uid'')"

text \<open>
  What tells two windows of a feed apart in the flag keys: the kind of window, the identifier
  and the UTC day of the start, for the events with a recognised type tag.
\<close>

definition identities :: "calEvent list \<Rightarrow> (windowKind option \<times> string \<times> string) list" where
  "identities evs =
     map (\<lambda>ev. (windowKindOf ev, uidOf ev, isoDateUTC (evStart ev)))
       (filter (\<lambda>ev. windowKindOf ev \<noteq> None) evs)"

text \<open>
  The instant that the hour handler accepts for an interaction, if it accepts one: a value is
  selected and is neither empty nor the sentinel \<^verbatim>\<open>none\<close>, the custom id has a date part, the
  date and the hour give a time value, and this lies in the window of the custom id.
\<close>

definition chosenInstant :: "runtime \<Rightarrow> interaction \<Rightarrow> int option" where
  "chosenInstant rt i =
     (let parts = splitOn CHR ''|'' (customId i)
      in case element (selected i) 0 of
           None \<Rightarrow> None
         | Some hourStr \<Rightarrow>
             if hourStr = [] \<or> hourStr = ''none'' then None
             else (case element parts 3 of
                     None \<Rightarrow> None
                   | Some dateISO \<Rightarrow>
                       (case utcOfDateHour rt dateISO (toNumber rt (Some hourStr)) of
                          None \<Rightarrow> None
                        | Some t \<Rightarrow>
                            if numGe (Some t) (toNumber rt (element parts 1)) \<and>
                               numLt (Some t) (toNumber rt (element parts 2))
                            then Some t else None)))"

section \<open>Worked examples\<close>

text \<open>
  A configuration with the announcement channel \<open>100\<close>. The gateway of the examples
  resolves \<open>100\<close> to a text channel, \<open>200\<close> to a voice channel, \<open>300\<close> to nothing, and
  rejects every other id.
\<close>

definition demoConfig :: config where
  "demoConfig = \<lparr>pingChannelId = Some ''100'', accessRoleId = None, aooTeamRoleId = None,
     mgeChannelId = None, mgeRoleId = None\<rparr>"

definition demoFetch :: "string \<Rightarrow> fetched" where
  "demoFetch c = (if c = ''100'' then Channel True else if c = ''200'' then Channel False
                  else if c = ''300'' then NoChannel else FetchRejects)"

definition demoGateway :: gateway where
  "demoGateway = \<lparr>fetchChannel = demoFetch, sendOk = (\<lambda>n ch txt. True)\<rparr>"

text \<open>A gateway on which every send fails, and one on which only the second send fails.\<close>

definition deadGateway :: gateway where
  "deadGateway = \<lparr>fetchChannel = demoFetch, sendOk = (\<lambda>n ch txt. False)\<rparr>"

definition flakyGateway :: gateway where
  "flakyGateway = \<lparr>fetchChannel = demoFetch, sendOk = (\<lambda>n ch txt. n \<noteq> 1)\<rparr>"

text \<open>
  A queue of four jobs: one due, one sent in an earlier sweep, one in the future, and one due
  on a channel that cannot be resolved.
\<close>

definition jobA :: job where
  "jobA = \<lparr>jid = ''100_500_a'', channelId = ''100'', runAtMs = 500, message = ''first'',
     sent = False, groupKey = Some ''aoo:1:100:7''\<rparr>"

definition jobB :: job where
  "jobB = \<lparr>jid = ''100_200_b'', channelId = ''100'', runAtMs = 200, message = ''old'',
     sent = True, groupKey = Some ''aoo:1:100:7''\<rparr>"

definition jobC :: job where
  "jobC = \<lparr>jid = ''100_9000_c'', channelId = ''100'', runAtMs = 9000, message = ''later'',
     sent = False, groupKey = Some ''aoo:1:100:8''\<rparr>"

definition jobD :: job where
  "jobD = \<lparr>jid = ''404_700_d'', channelId = ''404'', runAtMs = 700, message = ''lost'',
     sent = False, groupKey = None\<rparr>"

definition queueState :: state where
  "queueState = \<lparr>scheduled = [jobA, jobB, jobC, jobD], config = demoConfig, flags = Map.empty\<rparr>"

definition queueWorld :: world where
  "queueWorld = \<lparr>mem = queueState, disk = queueState, saves = 1, outbox = [], runCheckRunning = False\<rparr>"

text \<open>
  The registration window of the specification's example: from 2025-01-10 00:00 UTC to
  2025-01-12 00:00 UTC, in a world where no milestone has fired yet.
\<close>

definition demoEvent :: calEvent where
  "demoEvent = \<lparr>uid = Some ''E1'', eid = None, evStart = 1736467200000, evEnd = 1736640000000,
     description = Some ''Type: ark_registration'', summary = Some ''Ark of Osiris registration'',
     location = None\<rparr>"

definition pollState :: state where
  "pollState = \<lparr>scheduled = [], config = demoConfig, flags = Map.empty\<rparr>"

definition pollWorld :: world where
  "pollWorld = \<lparr>mem = pollState, disk = pollState, saves = 1, outbox = [], runCheckRunning = False\<rparr>"

text \<open>The same world once the opened milestone of the example has fired and been saved.\<close>

definition openedState :: state where
  "openedState = pollState\<lparr>flags := [''AOO_REG_E1_2025-01-10_open_at_start'' \<mapsto> True]\<rparr>"

definition openedWorld :: world where
  "openedWorld = \<lparr>mem = openedState, disk = openedState, saves = 2, outbox = [], runCheckRunning = False\<rparr>"

text \<open>A second registration window on the same days, and a deferred window.\<close>

definition secondEvent :: calEvent where
  "secondEvent = \<lparr>uid = None, eid = Some ''E2'', evStart = 1736467200000, evEnd = 1736640000000,
     description = None, summary = Some ''Second ark'',
     location = Some (''TYPE:'' @ [CHR 0xC2, CHR 0xA0] @ ''Ark_Registration'')\<rparr>"

definition mgeEvent :: calEvent where
  "mgeEvent = \<lparr>uid = Some ''M1'', eid = None, evStart = 1736726400000, evEnd = 1737331200000,
     description = Some ''Type: mge'', summary = None, location = None\<rparr>"

text \<open>
  A runtime for the examples. It reads a text of decimal digits as the number it writes and
  the empty text as 0, as \<^verbatim>\<open>Number\<close> does, and every other text as \<open>NaN\<close>; its
  \<^verbatim>\<open>Date.UTC\<close> truncates its arguments, reads a year from 0 to 99 as a year of the
  twentieth century, carries months over into years and clips the result to the range of time
  values; it writes whole numbers in decimal digits; its builder accepts a menu of 1 to 25
  options with a custom id of at most 100 characters; every response goes through.
\<close>

fun decimalValue :: "string \<Rightarrow> nat \<Rightarrow> nat option" where
  "decimalValue [] acc = Some acc"
| "decimalValue (c # cs) acc =
     (if c \<in> set ''0123456789'' then decimalValue cs (10 * acc + (of_char c - 48)) else None)"

definition demoNumber :: "string option \<Rightarrow> jsnum" where
  "demoNumber x =
     (case x of
        None \<Rightarrow> NaN
      | Some s \<Rightarrow> (case decimalValue s 0 of None \<Rightarrow> NaN | Some n \<Rightarrow> Finite (real n)))"

definition demoMinus1 :: "jsnum \<Rightarrow> jsnum" where
  "demoMinus1 n = (case n of NaN \<Rightarrow> NaN | Infinite b \<Rightarrow> Infinite b | Finite x \<Rightarrow> Finite (x - 1))"

definition truncated :: "real \<Rightarrow> int" where
  "truncated x = (if x \<ge> 0 then \<lfloor>x\<rfloor> else \<lceil>x\<rceil>)"

definition demoDateUTC :: "jsnum \<Rightarrow> jsnum \<Rightarrow> jsnum \<Rightarrow> jsnum \<Rightarrow> int option" where
  "demoDateUTC y m d h =
     (case (y, m, d, h) of
        (Finite yr, Finite mr, Finite dr, Finite hr) \<Rightarrow>
          (let y0 = truncated yr;
               y1 = (if 0 \<le> y0 \<and> y0 \<le> 99 then 1900 + y0 else y0);
               m0 = truncated mr;
               day = daysFromCivil (y1 + m0 div 12) (m0 mod 12 + 1) 1 + (truncated dr - 1);
               t = day * msPerDay + truncated hr * 3600000
           in if \<bar>t\<bar> \<le> 8640000000000000 then Some t else None)
      | _ \<Rightarrow> None)"

definition demoNumberText :: "jsnum \<Rightarrow> string" where
  "demoNumberText n =
     (case n of NaN \<Rightarrow> ''NaN'' | Infinite b \<Rightarrow> (if b then ''Infinity'' else ''-Infinity'')
      | Finite x \<Rightarrow> showInt \<lfloor>x\<rfloor>)"

definition demoBuilds :: "selectMenu \<Rightarrow> bool" where
  "demoBuilds m = (length (menuId m) \<le> 100 \<and> menuOptions m \<noteq> [] \<and> length (menuOptions m) \<le> 25)"

definition demoRuntime :: runtime where
  "demoRuntime = \<lparr>toNumber = demoNumber, minus1 = demoMinus1, dateUTC = demoDateUTC,
     numberText = demoNumberText, builds = demoBuilds, answers = (\<lambda>r. True)\<rparr>"

text \<open>
  An administrator who picks 14:00 on 2025-02-02 in the hour menu of a run from 2025-02-01
  00:00 UTC to 2025-02-03 00:00 UTC, in guild \<open>1\<close>, channel \<open>100\<close>, as user \<open>7\<close>; the same
  with the sentinel of an empty menu, with an hour of the day after the run, and with a custom
  id that lost its date.
\<close>

definition demoAdmin :: member where
  "demoAdmin = \<lparr>isAdministrator = True, memberRoles = []\<rparr>"

definition hourPick :: interaction where
  "hourPick = \<lparr>isStringSelectMenu = True, isRepliable = True, invoker = Some demoAdmin,
     customId = ''aoo_hour|1738368000000|1738540800000|2025-02-02'', selected = [''14''],
     inGuildId = Some ''1'', inChannelId = ''100'', inUserId = ''7''\<rparr>"

definition sentinelPick :: interaction where
  "sentinelPick = hourPick\<lparr>selected := [''none'']\<rparr>"

definition latePick :: interaction where
  "latePick = hourPick\<lparr>customId := ''aoo_hour|1738368000000|1738540800000|2025-02-03''\<rparr>"

definition brokenPick :: interaction where
  "brokenPick = hourPick\<lparr>customId := ''aoo_hour|1738368000000|1738540800000''\<rparr>"

section \<open>The reminder queue\<close>

lemma schedulePing_scheduled:
  "scheduled (mem (schedulePing ch runAt msg gk rnd w)) =
   scheduled (mem w) @
     [\<lparr>jid = ch @ ''_'' @ showInt runAt @ ''_'' @ rnd, channelId = ch, runAtMs = runAt,
       message = msg, sent = False, groupKey = gk\<rparr>]"
  by (simp add: schedulePing_def saveState_def)

lemma schedule_many:
  "scheduled (mem (foldl (\<lambda>v (ch, runAt, msg, rnd). schedulePing ch runAt msg gk rnd v) w reqs)) =
   scheduled (mem w) @
     map (\<lambda>(ch, runAt, msg, rnd).
            \<lparr>jid = ch @ ''_'' @ showInt runAt @ ''_'' @ rnd, channelId = ch, runAtMs = runAt,
             message = msg, sent = False, groupKey = gk\<rparr>) reqs"
proof (induction reqs arbitrary: w)
  case Nil
  show ?case by simp
next
  case (Cons q reqs)
  obtain ch runAt msg rnd where q: "q = (ch, runAt, msg, rnd)"
    by (cases q)
  show ?case
    unfolding q by (simp add: Cons.IH schedulePing_scheduled)
qed

lemma removed_count:
  "length xs - length (filter (\<lambda>x. sent x \<or> groupKey x \<noteq> gk) xs) =
   length (filter (\<lambda>x. \<not> sent x \<and> groupKey x = gk) xs)"
proof -
  have "length (filter (\<lambda>x. sent x \<or> groupKey x \<noteq> gk) xs) +
        length (filter (\<lambda>x. \<not> (sent x \<or> groupKey x \<noteq> gk)) xs) = length xs"
    by (rule sum_length_filter_compl)
  then show ?thesis by simp
qed

lemma removed_none:
  "(length (filter (\<lambda>x. \<not> sent x \<and> groupKey x = gk) xs) = 0) =
   (filter (\<lambda>x. sent x \<or> groupKey x \<noteq> gk) xs = xs)"
  by (auto simp: filter_empty_conv filter_id_conv)

text \<open>
  C5. \<^verbatim>\<open>removeScheduledByGroupKey\<close> with a non-empty key removes exactly the unsent jobs of
  that key, keeps every other job in place and in order, and returns how many it removed;
  with an empty or absent key it returns 0 and changes nothing. It saves exactly when the
  count is not 0. When jobs are then scheduled under the same key, the unsent jobs of that key
  are exactly the new ones.
\<close>

theorem cancelGroup_removes_unsent_of_group:
  assumes "removeScheduledByGroupKey gk w = (n, w')"
  shows "(if truthy gk
          then scheduled (mem w') =
                 filter (\<lambda>x. \<not> (\<not> sent x \<and> groupKey x = gk)) (scheduled (mem w)) \<and>
               n = length (filter (\<lambda>x. \<not> sent x \<and> groupKey x = gk) (scheduled (mem w)))
          else n = 0 \<and> w' = w) \<and>
         config (mem w') = config (mem w) \<and> flags (mem w') = flags (mem w) \<and>
         outbox w' = outbox w \<and>
         (if n \<noteq> 0 then saves w' = Suc (saves w) \<and> disk w' = mem w'
          else saves w' = saves w \<and> disk w' = disk w) \<and>
         (truthy gk \<longrightarrow>
            (let wf = foldl (\<lambda>v (ch, runAt, msg, rnd). schedulePing ch runAt msg gk rnd v) w' reqs;
                 new = drop (length (scheduled (mem w'))) (scheduled (mem wf))
             in filter (\<lambda>x. \<not> sent x \<and> groupKey x = gk) (scheduled (mem wf)) = new \<and>
                map (\<lambda>x. (channelId x, runAtMs x, message x)) new =
                  map (\<lambda>(ch, runAt, msg, rnd). (ch, runAt, msg)) reqs))"
proof (cases "truthy gk")
  case False
  with assms show ?thesis
    by (auto simp: removeScheduledByGroupKey_def)
next
  case True
  let ?xs = "scheduled (mem w)"
  let ?keep = "filter (\<lambda>x. sent x \<or> groupKey x \<noteq> gk) ?xs"
  have n: "n = length (filter (\<lambda>x. \<not> sent x \<and> groupKey x = gk) ?xs)"
    using assms True by (auto simp: removeScheduledByGroupKey_def Let_def removed_count)
  have sch: "scheduled (mem w') = ?keep"
    using assms True by (auto simp: removeScheduledByGroupKey_def Let_def saveState_def)
  have frame: "config (mem w') = config (mem w)" "flags (mem w') = flags (mem w)" "outbox w' = outbox w"
    using assms True by (auto simp: removeScheduledByGroupKey_def Let_def saveState_def)
  have n': "n = length ?xs - length ?keep"
    using n by (simp add: removed_count)
  have w': "w' = (if length ?keep < length ?xs
                  then saveState (w\<lparr>mem := (mem w)\<lparr>scheduled := ?keep\<rparr>\<rparr>)
                  else w\<lparr>mem := (mem w)\<lparr>scheduled := ?keep\<rparr>\<rparr>)"
    using assms True by (auto simp: removeScheduledByGroupKey_def Let_def)
  have nz: "(n \<noteq> 0) = (length ?keep < length ?xs)"
    using n' by auto
  have same: "\<not> length ?keep < length ?xs \<Longrightarrow> ?keep = ?xs"
    using removed_none[of gk ?xs] n nz by simp
  have sv: "if n \<noteq> 0 then saves w' = Suc (saves w) \<and> disk w' = mem w'
            else saves w' = saves w \<and> disk w' = disk w"
    unfolding nz w' by (simp add: saveState_def)
  have none: "filter (\<lambda>x. \<not> sent x \<and> groupKey x = gk) ?keep = []"
    by (auto simp: filter_empty_conv)
  have resched: "let wf = foldl (\<lambda>v (ch, runAt, msg, rnd). schedulePing ch runAt msg gk rnd v) w' reqs;
                 new = drop (length (scheduled (mem w'))) (scheduled (mem wf))
             in filter (\<lambda>x. \<not> sent x \<and> groupKey x = gk) (scheduled (mem wf)) = new \<and>
                map (\<lambda>x. (channelId x, runAtMs x, message x)) new =
                  map (\<lambda>(ch, runAt, msg, rnd). (ch, runAt, msg)) reqs"
    unfolding Let_def schedule_many sch
    by (auto simp: filter_map comp_def case_prod_unfold filter_empty_conv)
  have "(\<lambda>x. \<not> (\<not> sent x \<and> groupKey x = gk)) = (\<lambda>x. sent x \<or> groupKey x \<noteq> gk)"
    by auto
  with True n sch frame sv resched show ?thesis by simp
qed

theorem cancelGroup_removes_unsent_of_group_witness:
  "removeScheduledByGroupKey (Some ''aoo:1:100:7'') queueWorld =
     (1, queueWorld\<lparr>mem := queueState\<lparr>scheduled := [jobB, jobC, jobD]\<rparr>,
                    disk := queueState\<lparr>scheduled := [jobB, jobC, jobD]\<rparr>, saves := 2\<rparr>) \<and>
   map (\<lambda>x. (channelId x, runAtMs x, message x))
     (filter (\<lambda>x. \<not> sent x \<and> groupKey x = Some ''aoo:1:100:7'')
        (scheduled (mem (foldl (\<lambda>v (ch, runAt, msg, rnd). schedulePing ch runAt msg (Some ''aoo:1:100:7'') rnd v)
           (queueWorld\<lparr>mem := queueState\<lparr>scheduled := [jobB, jobC, jobD]\<rparr>,
                       disk := queueState\<lparr>scheduled := [jobB, jobC, jobD]\<rparr>, saves := 2\<rparr>)
           [(''100'', 4000, ''half hour'', ''e''), (''100'', 5000, ''ten minutes'', ''f'')])))) =
     [(''100'', 4000, ''half hour''), (''100'', 5000, ''ten minutes'')]"
proof -
  have run: "removeScheduledByGroupKey (Some ''aoo:1:100:7'') queueWorld =
     (1, queueWorld\<lparr>mem := queueState\<lparr>scheduled := [jobB, jobC, jobD]\<rparr>,
                    disk := queueState\<lparr>scheduled := [jobB, jobC, jobD]\<rparr>, saves := 2\<rparr>)"
    by (simp add: removeScheduledByGroupKey_def truthy_def Let_def saveState_def queueWorld_def
          queueState_def jobA_def jobB_def jobC_def jobD_def)
  have t: "truthy (Some ''aoo:1:100:7'')"
    by (simp add: truthy_def)
  let ?reqs = "[(''100'', 4000, ''half hour'', ''e''), (''100'', 5000, ''ten minutes'', ''f'')]"
  let ?w' = "queueWorld\<lparr>mem := queueState\<lparr>scheduled := [jobB, jobC, jobD]\<rparr>,
                        disk := queueState\<lparr>scheduled := [jobB, jobC, jobD]\<rparr>, saves := 2\<rparr>"
  let ?wf = "foldl (\<lambda>v (ch, runAt, msg, rnd). schedulePing ch runAt msg (Some ''aoo:1:100:7'') rnd v) ?w' ?reqs"
  let ?P = "\<lambda>x. \<not> sent x \<and> groupKey x = Some ''aoo:1:100:7''"
  let ?f = "\<lambda>x. (channelId x, runAtMs x, message x)"
  from cancelGroup_removes_unsent_of_group[OF run, of ?reqs]
  have "truthy (Some ''aoo:1:100:7'') \<longrightarrow>
        filter ?P (scheduled (mem ?wf)) = drop (length (scheduled (mem ?w'))) (scheduled (mem ?wf)) \<and>
        map ?f (drop (length (scheduled (mem ?w'))) (scheduled (mem ?wf))) =
          map (\<lambda>(ch, runAt, msg, rnd). (ch, runAt, msg)) ?reqs"
    unfolding Let_def by (elim conjE)
  with t have
    A: "filter ?P (scheduled (mem ?wf)) = drop (length (scheduled (mem ?w'))) (scheduled (mem ?wf))" and
    B: "map ?f (drop (length (scheduled (mem ?w'))) (scheduled (mem ?wf))) =
          map (\<lambda>(ch, runAt, msg, rnd). (ch, runAt, msg)) ?reqs"
    by blast+
  have "map ?f (filter ?P (scheduled (mem ?wf))) = map (\<lambda>(ch, runAt, msg, rnd). (ch, runAt, msg)) ?reqs"
    unfolding A by (rule B)
  also have "\<dots> = [(''100'', 4000, ''half hour''), (''100'', 5000, ''ten minutes'')]"
    by simp
  finally show ?thesis
    using run by (intro conjI)
qed

lemma catchLog_deliverItem:
  "\<exists>ats. catchLog (deliverItem gw item w) = (Return (), w\<lparr>outbox := outbox w @ ats\<rparr>) \<and>
     map (\<lambda>a. (toChannel a, body a)) ats =
       (if reachable gw item then [(channelId item, message item)] else [])"
  by (cases "fetchChannel gw (channelId item)")
     (auto simp: catchLog_def deliverItem_def send_def reachable_def Let_def)

lemma sweepItems_result:
  "\<exists>ats. sweepItems gw nowMs items c w =
       (Return (map (\<lambda>x. if due nowMs x then x\<lparr>sent := True\<rparr> else x) items,
                c \<or> (\<exists>x\<in>set items. due nowMs x)),
        w\<lparr>outbox := outbox w @ ats\<rparr>) \<and>
     map (\<lambda>a. (toChannel a, body a)) ats =
       map (\<lambda>x. (channelId x, message x)) (filter (\<lambda>x. due nowMs x \<and> reachable gw x) items)"
proof (induction items arbitrary: c w)
  case Nil
  show ?case by simp
next
  case (Cons item rest)
  show ?case
  proof (cases "due nowMs item")
    case False
    from Cons.IH[of c w] obtain ats where
      "sweepItems gw nowMs rest c w =
       (Return (map (\<lambda>x. if due nowMs x then x\<lparr>sent := True\<rparr> else x) rest,
                c \<or> (\<exists>x\<in>set rest. due nowMs x)),
        w\<lparr>outbox := outbox w @ ats\<rparr>)"
      "map (\<lambda>a. (toChannel a, body a)) ats =
       map (\<lambda>x. (channelId x, message x)) (filter (\<lambda>x. due nowMs x \<and> reachable gw x) rest)"
      by blast
    with False show ?thesis
      by (auto simp: due_def)
  next
    case True
    obtain a1 where a1: "catchLog (deliverItem gw item w) = (Return (), w\<lparr>outbox := outbox w @ a1\<rparr>)"
      "map (\<lambda>a. (toChannel a, body a)) a1 =
       (if reachable gw item then [(channelId item, message item)] else [])"
      using catchLog_deliverItem by blast
    from Cons.IH[of True "w\<lparr>outbox := outbox w @ a1\<rparr>"] obtain ats where ats:
      "sweepItems gw nowMs rest True (w\<lparr>outbox := outbox w @ a1\<rparr>) =
       (Return (map (\<lambda>x. if due nowMs x then x\<lparr>sent := True\<rparr> else x) rest, True),
        w\<lparr>outbox := outbox w @ a1 @ ats\<rparr>)"
      "map (\<lambda>a. (toChannel a, body a)) ats =
       map (\<lambda>x. (channelId x, message x)) (filter (\<lambda>x. due nowMs x \<and> reachable gw x) rest)"
      by auto
    have "sweepItems gw nowMs (item # rest) c w =
       (Return (map (\<lambda>x. if due nowMs x then x\<lparr>sent := True\<rparr> else x) (item # rest),
                c \<or> (\<exists>x\<in>set (item # rest). due nowMs x)),
        w\<lparr>outbox := outbox w @ (a1 @ ats)\<rparr>)"
      using True a1(1) ats(1) by (auto simp: due_def)
    moreover have "map (\<lambda>a. (toChannel a, body a)) (a1 @ ats) =
       map (\<lambda>x. (channelId x, message x)) (filter (\<lambda>x. due nowMs x \<and> reachable gw x) (item # rest))"
      using True a1(2) ats(2) by simp
    ultimately show ?thesis by blast
  qed
qed

lemma filter_marked:
  "filter (\<lambda>x. \<not> sent x) (map (\<lambda>x. if due nowMs x then x\<lparr>sent := True\<rparr> else x) xs) =
   filter (\<lambda>x. \<not> sent x \<and> nowMs < runAtMs x) xs"
  by (induction xs) (auto simp: due_def)

lemma length_filter_neq:
  "(length (filter P xs) \<noteq> length xs) = (\<exists>x\<in>set xs. \<not> P x)"
proof (cases "\<exists>x\<in>set xs. \<not> P x")
  case True
  then obtain x where "x \<in> set xs" "\<not> P x" by blast
  then have "length (filter P xs) < length xs" by (rule length_filter_less)
  with True show ?thesis by simp
next
  case False
  then have "filter P xs = xs" by simp
  with False show ?thesis by simp
qed

lemma processScheduled_result:
  "\<exists>w'. processScheduled gw nowMs w = (Return (), w') \<and>
     scheduled (mem w') = filter (\<lambda>x. \<not> sent x \<and> nowMs < runAtMs x) (scheduled (mem w)) \<and>
     config (mem w') = config (mem w) \<and> flags (mem w') = flags (mem w) \<and>
     runCheckRunning w' = runCheckRunning w \<and>
     map (\<lambda>a. (toChannel a, body a)) (fresh w w') =
       map (\<lambda>x. (channelId x, message x))
         (filter (\<lambda>x. due nowMs x \<and> reachable gw x) (scheduled (mem w))) \<and>
     take (length (outbox w)) (outbox w') = outbox w \<and>
     (if scheduled (mem w') \<noteq> scheduled (mem w)
      then saves w' = Suc (saves w) \<and> disk w' = mem w'
      else saves w' = saves w \<and> disk w' = disk w)"
proof -
  let ?xs = "scheduled (mem w)"
  let ?marked = "map (\<lambda>x. if due nowMs x then x\<lparr>sent := True\<rparr> else x) ?xs"
  obtain ats where sw: "sweepItems gw nowMs ?xs False w =
       (Return (?marked, (\<exists>x\<in>set ?xs. due nowMs x)), w\<lparr>outbox := outbox w @ ats\<rparr>)"
    and ats: "map (\<lambda>a. (toChannel a, body a)) ats =
       map (\<lambda>x. (channelId x, message x)) (filter (\<lambda>x. due nowMs x \<and> reachable gw x) ?xs)"
    using sweepItems_result[of gw nowMs ?xs False w] by auto
  let ?keep = "filter (\<lambda>x. \<not> sent x \<and> nowMs < runAtMs x) ?xs"
  have chg: "((\<exists>x\<in>set ?xs. due nowMs x) \<or> length ?keep \<noteq> length ?xs) = (?keep \<noteq> ?xs)"
    unfolding length_filter_neq filter_id_conv due_def by (fastforce simp: not_less)
  show ?thesis
    using sw ats chg
    by (simp add: processScheduled_def Let_def filter_marked saveState_def fresh_def)
qed

text \<open>
  C6. A sweep never throws. Every unsent job whose time has come goes through the delivery
  attempt (the channel is resolved and, when it is a text channel, the message is sent once,
  in queue order) and is marked sent whatever came of it; after the loop every sent job is
  dropped, those of earlier sweeps included, so that exactly the unsent jobs still in the
  future remain, unchanged and in order. The sweep saves once when the list changed and not
  at all otherwise.
\<close>

theorem sweep_marks_and_evicts:
  "\<exists>items c w1 w'.
     sweepItems gw nowMs (scheduled (mem w)) False w = (Return (items, c), w1) \<and>
     items = map (\<lambda>x. if \<not> sent x \<and> runAtMs x \<le> nowMs then x\<lparr>sent := True\<rparr> else x) (scheduled (mem w)) \<and>
     processScheduled gw nowMs w = (Return (), w') \<and>
     scheduled (mem w') = filter (\<lambda>x. \<not> sent x \<and> nowMs < runAtMs x) (scheduled (mem w)) \<and>
     config (mem w') = config (mem w) \<and> flags (mem w') = flags (mem w) \<and>
     map (\<lambda>a. (toChannel a, body a)) (fresh w w') =
       map (\<lambda>x. (channelId x, message x))
         (filter (\<lambda>x. due nowMs x \<and> reachable gw x) (scheduled (mem w))) \<and>
     take (length (outbox w)) (outbox w') = outbox w \<and>
     (if scheduled (mem w') \<noteq> scheduled (mem w)
      then saves w' = Suc (saves w) \<and> disk w' = mem w'
      else saves w' = saves w \<and> disk w' = disk w)"
proof -
  let ?xs = "scheduled (mem w)"
  obtain ats where sw: "sweepItems gw nowMs ?xs False w =
       (Return (map (\<lambda>x. if \<not> sent x \<and> runAtMs x \<le> nowMs then x\<lparr>sent := True\<rparr> else x) ?xs,
                False \<or> (\<exists>x\<in>set ?xs. \<not> sent x \<and> runAtMs x \<le> nowMs)),
        w\<lparr>outbox := outbox w @ ats\<rparr>)"
    using sweepItems_result[of gw nowMs ?xs False w, unfolded due_def] by blast
  obtain w' where w': "processScheduled gw nowMs w = (Return (), w') \<and>
     scheduled (mem w') = filter (\<lambda>x. \<not> sent x \<and> nowMs < runAtMs x) ?xs \<and>
     config (mem w') = config (mem w) \<and> flags (mem w') = flags (mem w) \<and>
     runCheckRunning w' = runCheckRunning w \<and>
     map (\<lambda>a. (toChannel a, body a)) (fresh w w') =
       map (\<lambda>x. (channelId x, message x))
         (filter (\<lambda>x. due nowMs x \<and> reachable gw x) ?xs) \<and>
     take (length (outbox w)) (outbox w') = outbox w \<and>
     (if scheduled (mem w') \<noteq> scheduled (mem w)
      then saves w' = Suc (saves w) \<and> disk w' = mem w'
      else saves w' = saves w \<and> disk w' = disk w)"
    using processScheduled_result[of gw nowMs w] by blast
  show ?thesis
    using sw w' by blast
qed

theorem sweep_marks_and_evicts_witness:
  "processScheduled deadGateway 1000 queueWorld =
     (Return (), queueWorld\<lparr>mem := queueState\<lparr>scheduled := [jobC]\<rparr>,
                            disk := queueState\<lparr>scheduled := [jobC]\<rparr>, saves := 2,
                            outbox := [\<lparr>toChannel = ''100'', body = ''first'', delivered = False\<rparr>]\<rparr>)"
  using sweep_marks_and_evicts[of deadGateway 1000 queueWorld]
  by (simp add: processScheduled_def catchLog_def deliverItem_def send_def saveState_def Let_def
        deadGateway_def demoFetch_def queueWorld_def queueState_def jobA_def jobB_def jobC_def jobD_def)

text \<open>
  C10. In a sweep, a due unsent job whose channel id is rejected, resolves to nothing or
  resolves to a channel that is not text based gets no send: the loop marks it sent all the
  same, it is gone from the queue afterwards, and the sweep ends normally.
\<close>

theorem sweep_unreachable_channel:
  assumes "j \<in> set (scheduled (mem w))" and "\<not> sent j" and "runAtMs j \<le> nowMs"
    and "fetchChannel gw (channelId j) \<noteq> Channel True"
  shows "\<exists>items c w1 w'.
     sweepItems gw nowMs (scheduled (mem w)) False w = (Return (items, c), w1) \<and>
     j\<lparr>sent := True\<rparr> \<in> set items \<and> c \<and>
     processScheduled gw nowMs w = (Return (), w') \<and>
     j \<notin> set (scheduled (mem w')) \<and> j\<lparr>sent := True\<rparr> \<notin> set (scheduled (mem w')) \<and>
     (\<forall>a\<in>set (fresh w w'). toChannel a \<noteq> channelId j) \<and>
     saves w' = Suc (saves w) \<and> disk w' = mem w'"
proof -
  have dj: "due nowMs j" using assms(2,3) by (simp add: due_def)
  obtain ats where sw: "sweepItems gw nowMs (scheduled (mem w)) False w =
       (Return (map (\<lambda>x. if due nowMs x then x\<lparr>sent := True\<rparr> else x) (scheduled (mem w)),
                False \<or> (\<exists>x\<in>set (scheduled (mem w)). due nowMs x)),
        w\<lparr>outbox := outbox w @ ats\<rparr>)"
    using sweepItems_result[of gw nowMs "scheduled (mem w)" False w] by blast
  have marked: "j\<lparr>sent := True\<rparr> \<in>
      set (map (\<lambda>x. if due nowMs x then x\<lparr>sent := True\<rparr> else x) (scheduled (mem w)))"
    using assms(1) dj by force
  have c: "False \<or> (\<exists>x\<in>set (scheduled (mem w)). due nowMs x)"
    using assms(1) dj by blast
  from processScheduled_result[of gw nowMs w] obtain w' where w':
    "processScheduled gw nowMs w = (Return (), w')"
    "scheduled (mem w') = filter (\<lambda>x. \<not> sent x \<and> nowMs < runAtMs x) (scheduled (mem w))"
    "map (\<lambda>a. (toChannel a, body a)) (fresh w w') =
       map (\<lambda>x. (channelId x, message x))
         (filter (\<lambda>x. due nowMs x \<and> reachable gw x) (scheduled (mem w)))"
    "if scheduled (mem w') \<noteq> scheduled (mem w)
      then saves w' = Suc (saves w) \<and> disk w' = mem w'
      else saves w' = saves w \<and> disk w' = disk w"
    by blast
  have gone: "j \<notin> set (scheduled (mem w'))" "j\<lparr>sent := True\<rparr> \<notin> set (scheduled (mem w'))"
    using assms(3) unfolding w'(2) by auto
  have quiet: "\<forall>a\<in>set (fresh w w'). toChannel a \<noteq> channelId j"
  proof
    fix a assume "a \<in> set (fresh w w')"
    then have "(toChannel a, body a) \<in> set (map (\<lambda>a. (toChannel a, body a)) (fresh w w'))"
      by force
    then obtain x where "reachable gw x" "toChannel a = channelId x"
      unfolding w'(3) by auto
    then show "toChannel a \<noteq> channelId j"
      using assms(4) by (auto simp: reachable_def)
  qed
  have "scheduled (mem w') \<noteq> scheduled (mem w)"
    using gone(1) assms(1) by auto
  with w'(4) have "saves w' = Suc (saves w) \<and> disk w' = mem w'" by simp
  with sw marked c w'(1) gone quiet show ?thesis by blast
qed

theorem sweep_unreachable_channel_witness:
  "jobD \<in> set (scheduled (mem queueWorld)) \<and> \<not> sent jobD \<and> runAtMs jobD \<le> 1000 \<and>
   fetchChannel demoGateway (channelId jobD) = FetchRejects \<and>
   jobD \<notin> set (scheduled (mem (snd (processScheduled demoGateway 1000 queueWorld)))) \<and>
   map toChannel (fresh queueWorld (snd (processScheduled demoGateway 1000 queueWorld))) = [''100'']"
proof -
  have h: "jobD \<in> set (scheduled (mem queueWorld))" "\<not> sent jobD" "runAtMs jobD \<le> 1000"
    "fetchChannel demoGateway (channelId jobD) \<noteq> Channel True"
    by (simp_all add: queueWorld_def queueState_def jobD_def demoGateway_def demoFetch_def)
  from sweep_unreachable_channel[OF h] have "jobD \<notin> set (scheduled (mem (snd (processScheduled demoGateway 1000 queueWorld))))"
    by auto
  moreover have "map toChannel (fresh queueWorld (snd (processScheduled demoGateway 1000 queueWorld))) = [''100'']"
    by (simp add: processScheduled_def catchLog_def deliverItem_def send_def saveState_def Let_def fresh_def
        demoGateway_def demoFetch_def queueWorld_def queueState_def jobA_def jobB_def jobC_def jobD_def)
  moreover have "fetchChannel demoGateway (channelId jobD) = FetchRejects"
    by (simp add: jobD_def demoGateway_def demoFetch_def)
  ultimately show ?thesis using h by simp
qed

section \<open>The announcement engine\<close>


lemma andThen_simps [simp]:
  "andThen (Return u, w) f = f w"
  "andThen (Throw, w) f = (Throw, w)"
  by (simp_all add: andThen_def)

lemma andThen_Return_id [simp]: "andThen r (\<lambda>w. (Return (), w)) = r"
  by (cases r; cases "fst r") (auto simp: andThen_def split: outcome.splits)

lemma runBlocks_append:
  "runBlocks gw ch (p @ q) w = andThen (runBlocks gw ch p w) (runBlocks gw ch q)"
  by (induction p arbitrary: w) (auto split: prod.splits outcome.splits)

lemma milestone_config [simp]: "config (mem (snd (milestone gw ch k c m w))) = config (mem w)"
  by (simp add: milestone_def send_def saveState_def Let_def)

lemma runBlocks_config [simp]: "config (mem (snd (runBlocks gw ch bs w))) = config (mem w)"
proof (induction bs arbitrary: w)
  case Nil
  show ?case by simp
next
  case (Cons b bs)
  obtain k c m where b: "b = (k, c, m)" by (cases b)
  obtain r w1 where r: "milestone gw ch k c m w = (r, w1)" by fastforce
  have "config (mem w1) = config (mem w)"
    using milestone_config[of gw ch k c m w] r by simp
  with Cons.IH[of w1] r b show ?case
    by (cases r) simp_all
qed

lemma checkArkRegistration_blocks:
  "checkArkRegistration gw ch now ev w =
   runBlocks gw ch
     (map (\<lambda>m. (flagKey RegistrationWindow m ev,
                 tableTrigger RegistrationWindow m (evStart ev) (evEnd ev) now,
                 messageOf (config (mem w)) RegistrationWindow m)) [Opened, Warning, Closed]) w"
  by (simp add: checkArkRegistration_def Let_def addHours_def andThen_def
           split: prod.splits outcome.splits)

lemma checkMge_blocks:
  "checkMge gw ch now ev w =
   runBlocks gw ch
     (map (\<lambda>m. (flagKey DeferredWindow m ev,
                 tableTrigger DeferredWindow m (evStart ev) (evEnd ev) now,
                 messageOf (config (mem w)) DeferredWindow m)) [Opened, Warning, Closed]) w"
  by (simp add: checkMge_def Let_def addHours_def andThen_def
           split: prod.splits outcome.splits)

lemma checkEvent_blocks:
  "checkEvent gw ch now ev w = runBlocks gw ch (blocks (config (mem w)) now [ev]) w"
proof (cases "getEventType ev")
  case None
  then show ?thesis
    by (simp add: checkEvent_def blocks_def stones_def stonesOf_def windowKindOf_def)
next
  case (Some t)
  consider "t = ''ark_registration''" | "t = ''mge''" | "t \<noteq> ''ark_registration''" "t \<noteq> ''mge''"
    by blast
  then show ?thesis
  proof cases
    case 1
    with Some show ?thesis
      by (simp add: checkEvent_def blocks_def stones_def stonesOf_def windowKindOf_def
               checkArkRegistration_blocks del: runBlocks.simps)
  next
    case 2
    with Some show ?thesis
      by (simp add: checkEvent_def blocks_def stones_def stonesOf_def windowKindOf_def
               checkMge_blocks del: runBlocks.simps)
  next
    case 3
    with Some show ?thesis
      by (simp add: checkEvent_def blocks_def stones_def stonesOf_def windowKindOf_def)
  qed
qed

lemma blocks_Cons: "blocks cfg now (ev # evs) = blocks cfg now [ev] @ blocks cfg now evs"
  by (simp add: blocks_def stones_def)

lemma checkEvents_blocks:
  "checkEvents gw ch now evs w = runBlocks gw ch (blocks (config (mem w)) now evs) w"
proof (induction evs arbitrary: w)
  case Nil
  show ?case by (simp add: blocks_def stones_def)
next
  case (Cons ev evs)
  obtain r w1 where r: "runBlocks gw ch (blocks (config (mem w)) now [ev]) w = (r, w1)"
    by fastforce
  have cfg: "config (mem w1) = config (mem w)"
    using runBlocks_config[of gw ch "blocks (config (mem w)) now [ev]" w] r by simp
  show ?case
    using r cfg Cons.IH[of w1]
    by (cases r) (simp_all add: checkEvent_blocks blocks_Cons[of _ _ ev evs] runBlocks_append)
qed


lemma milestone_skip:
  "flagSet (mem w) k \<or> \<not> c \<Longrightarrow> milestone gw ch k c m w = (Return (), w)"
  by (auto simp: milestone_def)

lemma milestone_cases:
  assumes "\<not> flagSet (mem w) k" "c"
  shows "milestone gw ch k c m w =
     (if sendOk gw (length (outbox w)) ch (PING @ [CHR 0x0A] @ m)
      then (Return (),
            w\<lparr>mem := (mem w)\<lparr>flags := (flags (mem w))(k \<mapsto> True)\<rparr>,
              disk := (mem w)\<lparr>flags := (flags (mem w))(k \<mapsto> True)\<rparr>,
              saves := Suc (saves w),
              outbox := outbox w @ [\<lparr>toChannel = ch, body = PING @ [CHR 0x0A] @ m, delivered = True\<rparr>]\<rparr>)
      else (Throw,
            w\<lparr>outbox := outbox w @ [\<lparr>toChannel = ch, body = PING @ [CHR 0x0A] @ m, delivered = False\<rparr>]\<rparr>))"
  using assms by (simp add: milestone_def send_def saveState_def Let_def)

text \<open>What one block can do to the world, whatever the gateway.\<close>

lemma milestone_effect:
  "\<exists>ats. outbox (snd (milestone gw ch k c m w)) = outbox w @ ats \<and>
     (\<forall>a\<in>set ats. \<not> flagSet (mem w) k \<and> c \<and> toChannel a = ch \<and> body a = PING @ [CHR 0x0A] @ m) \<and>
     scheduled (mem (snd (milestone gw ch k c m w))) = scheduled (mem w) \<and>
     runCheckRunning (snd (milestone gw ch k c m w)) = runCheckRunning w \<and>
     (\<forall>k'. flagSet (mem w) k' \<longrightarrow> flagSet (mem (snd (milestone gw ch k c m w))) k') \<and>
     (\<forall>k'. flagSet (mem w) k' \<and> flagSet (disk w) k' \<longrightarrow> flagSet (disk (snd (milestone gw ch k c m w))) k') \<and>
     (\<forall>k'. flagSet (mem (snd (milestone gw ch k c m w))) k' \<longrightarrow>
           flagSet (mem w) k' \<or> flagSet (disk (snd (milestone gw ch k c m w))) k')"
proof (cases "flagSet (mem w) k \<or> \<not> c")
  case True
  then show ?thesis by (simp add: milestone_skip)
next
  case False
  then show ?thesis
    by (simp add: milestone_cases flagSet_def)
qed

lemma runBlocks_effect:
  "\<exists>ats. outbox (snd (runBlocks gw ch bs w)) = outbox w @ ats \<and>
     (\<forall>a\<in>set ats. \<exists>(k, c, m)\<in>set bs. \<not> flagSet (mem w) k \<and> c \<and> toChannel a = ch \<and>
         body a = PING @ [CHR 0x0A] @ m) \<and>
     scheduled (mem (snd (runBlocks gw ch bs w))) = scheduled (mem w) \<and>
     runCheckRunning (snd (runBlocks gw ch bs w)) = runCheckRunning w \<and>
     (\<forall>k'. flagSet (mem w) k' \<longrightarrow> flagSet (mem (snd (runBlocks gw ch bs w))) k') \<and>
     (\<forall>k'. flagSet (mem w) k' \<and> flagSet (disk w) k' \<longrightarrow> flagSet (disk (snd (runBlocks gw ch bs w))) k') \<and>
     (\<forall>k'. flagSet (mem (snd (runBlocks gw ch bs w))) k' \<longrightarrow>
           flagSet (mem w) k' \<or> flagSet (disk (snd (runBlocks gw ch bs w))) k')"
proof (induction bs arbitrary: w)
  case Nil
  show ?case by simp
next
  case (Cons b bs)
  obtain k c m where b: "b = (k, c, m)" by (cases b)
  obtain r w1 where r: "milestone gw ch k c m w = (r, w1)" by fastforce
  from milestone_effect[of gw ch k c m w] r obtain a1 where a1:
    "outbox w1 = outbox w @ a1"
    "\<forall>a\<in>set a1. \<not> flagSet (mem w) k \<and> c \<and> toChannel a = ch \<and> body a = PING @ [CHR 0x0A] @ m"
    "scheduled (mem w1) = scheduled (mem w)"
    "runCheckRunning w1 = runCheckRunning w"
    "\<forall>k'. flagSet (mem w) k' \<longrightarrow> flagSet (mem w1) k'"
    "\<forall>k'. flagSet (mem w) k' \<and> flagSet (disk w) k' \<longrightarrow> flagSet (disk w1) k'"
    "\<forall>k'. flagSet (mem w1) k' \<longrightarrow> flagSet (mem w) k' \<or> flagSet (disk w1) k'"
    by auto
  show ?case
  proof (cases r)
    case Throw
    with r b a1 show ?thesis by auto
  next
    case (Return u)
    let ?w2 = "snd (runBlocks gw ch bs w1)"
    from Cons.IH[of w1] obtain a2 where a2:
      "outbox ?w2 = outbox w1 @ a2"
      "\<forall>a\<in>set a2. \<exists>(k, c, m)\<in>set bs. \<not> flagSet (mem w1) k \<and> c \<and> toChannel a = ch \<and>
         body a = PING @ [CHR 0x0A] @ m"
      "scheduled (mem ?w2) = scheduled (mem w1)"
      "runCheckRunning ?w2 = runCheckRunning w1"
      "\<forall>k'. flagSet (mem w1) k' \<longrightarrow> flagSet (mem ?w2) k'"
      "\<forall>k'. flagSet (mem w1) k' \<and> flagSet (disk w1) k' \<longrightarrow> flagSet (disk ?w2) k'"
      "\<forall>k'. flagSet (mem ?w2) k' \<longrightarrow> flagSet (mem w1) k' \<or> flagSet (disk ?w2) k'"
      by auto
    have res: "snd (runBlocks gw ch (b # bs) w) = ?w2"
      using r b Return by simp
    have "outbox ?w2 = outbox w @ (a1 @ a2)"
      using a1(1) a2(1) by simp
    moreover have "\<forall>a\<in>set (a1 @ a2). \<exists>(k, c, m)\<in>set (b # bs). \<not> flagSet (mem w) k \<and> c \<and>
         toChannel a = ch \<and> body a = PING @ [CHR 0x0A] @ m"
    proof
      fix a assume "a \<in> set (a1 @ a2)"
      then consider "a \<in> set a1" | "a \<in> set a2" by auto
      then show "\<exists>(k, c, m)\<in>set (b # bs). \<not> flagSet (mem w) k \<and> c \<and>
         toChannel a = ch \<and> body a = PING @ [CHR 0x0A] @ m"
      proof cases
        case 1
        with a1(2) b show ?thesis by auto
      next
        case 2
        with a2(2) obtain k2 c2 m2 where "(k2, c2, m2) \<in> set bs" "\<not> flagSet (mem w1) k2" "c2"
          "toChannel a = ch" "body a = PING @ [CHR 0x0A] @ m2" by auto
        with a1(5) show ?thesis by auto
      qed
    qed
    moreover have "\<forall>k'. flagSet (mem ?w2) k' \<longrightarrow> flagSet (mem w) k' \<or> flagSet (disk ?w2) k'"
      using a1(7) a2(6,7) by blast
    ultimately show ?thesis
      unfolding res using a1(3,4,5,6) a2(3,4,5,6) by (intro exI[of _ "a1 @ a2"]) auto
  qed
qed


lemma fresh_append: "outbox w' = outbox w @ ats \<Longrightarrow> fresh w w' = ats"
  by (simp add: fresh_def)

lemma runBlocks_outbox: "\<exists>ats. outbox (snd (runBlocks gw ch bs w)) = outbox w @ ats"
  using runBlocks_effect[of gw ch bs w] by blast

lemma runBlocks_Return:
  assumes "runBlocks gw ch bs w = (Return (), w')"
  shows "(\<forall>k. flagSet (mem w') k = (flagSet (mem w) k \<or> (\<exists>(k', c, m)\<in>set bs. k' = k \<and> c))) \<and>
         (\<forall>a\<in>set (fresh w w'). delivered a) \<and>
         (distinct (map fst bs) \<longrightarrow>
            map body (fresh w w') =
              map (\<lambda>(k, c, m). PING @ [CHR 0x0A] @ m)
                (filter (\<lambda>(k, c, m). \<not> flagSet (mem w) k \<and> c) bs))"
  using assms
proof (induction bs arbitrary: w)
  case Nil
  then show ?case by (simp add: fresh_def)
next
  case (Cons b bs)
  obtain k c m where b: "b = (k, c, m)" by (cases b)
  obtain r w1 where r: "milestone gw ch k c m w = (r, w1)" by fastforce
  have rR: "r = Return ()" and rest: "runBlocks gw ch bs w1 = (Return (), w')"
    using Cons.prems r b by (cases r; simp)+
  note IH = Cons.IH[OF rest]
  obtain a2 where a2: "outbox w' = outbox w1 @ a2"
    using runBlocks_outbox[of gw ch bs w1] rest by auto
  show ?case
  proof (cases "flagSet (mem w) k \<or> \<not> c")
    case True
    then have w1: "w1 = w" using r by (simp add: milestone_skip)
    have filt: "filter (\<lambda>(k, c, m). \<not> flagSet (mem w) k \<and> c) (b # bs) =
                filter (\<lambda>(k, c, m). \<not> flagSet (mem w) k \<and> c) bs"
      using True b by auto
    show ?thesis
      using IH True unfolding w1 filt b by auto
  next
    case False
    then have nk: "\<not> flagSet (mem w) k" and c: "c" by auto
    have ok: "sendOk gw (length (outbox w)) ch (PING @ [CHR 0x0A] @ m)"
      using r rR milestone_cases[OF nk c, of gw ch m] by (auto split: if_splits)
    have w1: "w1 = w\<lparr>mem := (mem w)\<lparr>flags := (flags (mem w))(k \<mapsto> True)\<rparr>,
              disk := (mem w)\<lparr>flags := (flags (mem w))(k \<mapsto> True)\<rparr>,
              saves := Suc (saves w),
              outbox := outbox w @ [\<lparr>toChannel = ch, body = PING @ [CHR 0x0A] @ m, delivered = True\<rparr>]\<rparr>"
      using r ok milestone_cases[OF nk c, of gw ch m] by simp
    have fl: "\<And>k'. flagSet (mem w1) k' = (flagSet (mem w) k' \<or> k' = k)"
      unfolding w1 by (auto simp: flagSet_def)
    have fr: "fresh w w' = \<lparr>toChannel = ch, body = PING @ [CHR 0x0A] @ m, delivered = True\<rparr> # fresh w1 w'"
      using a2 unfolding w1 by (simp add: fresh_def)
    have 1: "\<forall>k'. flagSet (mem w') k' = (flagSet (mem w) k' \<or> (\<exists>(k'', c, m)\<in>set (b # bs). k'' = k' \<and> c))"
      using IH fl b c by auto
    have 2: "\<forall>a\<in>set (fresh w w'). delivered a"
      using IH fr by auto
    have 3: "map body (fresh w w') =
              map (\<lambda>(k, c, m). PING @ [CHR 0x0A] @ m)
                (filter (\<lambda>(k, c, m). \<not> flagSet (mem w) k \<and> c) (b # bs))"
      if d: "distinct (map fst (b # bs))"
    proof -
      have kn: "k \<notin> fst ` set bs" and d': "distinct (map fst bs)"
        using d b by auto
      have "\<forall>x\<in>set bs. fst x \<noteq> k"
        using kn by force
      then have "filter (\<lambda>(k, c, m). \<not> flagSet (mem w1) k \<and> c) bs =
            filter (\<lambda>(k, c, m). \<not> flagSet (mem w) k \<and> c) bs"
        by (intro filter_cong) (auto simp: fl)
      with IH d' have "map body (fresh w1 w') =
              map (\<lambda>(k, c, m). PING @ [CHR 0x0A] @ m)
                (filter (\<lambda>(k, c, m). \<not> flagSet (mem w) k \<and> c) bs)"
        by simp
      with fr nk c b show ?thesis by simp
    qed
    from 1 2 3 show ?thesis by blast
  qed
qed

lemma runBlocks_Throw:
  assumes "runBlocks gw ch bs w = (Throw, w')"
  shows "\<exists>pre k c m post w1. bs = pre @ (k, c, m) # post \<and>
           runBlocks gw ch pre w = (Return (), w1) \<and> \<not> flagSet (mem w1) k \<and> c \<and>
           w' = w1\<lparr>outbox := outbox w1 @
                  [\<lparr>toChannel = ch, body = PING @ [CHR 0x0A] @ m, delivered = False\<rparr>]\<rparr>"
  using assms
proof (induction bs arbitrary: w)
  case Nil
  then show ?case by simp
next
  case (Cons b bs)
  obtain k c m where b: "b = (k, c, m)" by (cases b)
  obtain r w1 where r: "milestone gw ch k c m w = (r, w1)" by fastforce
  show ?case
  proof (cases r)
    case Throw
    then have w': "w' = w1" using Cons.prems r b by simp
    have el: "\<not> flagSet (mem w) k \<and> c"
      using r Throw milestone_skip[of w k c gw ch m] by auto
    then have "w1 = w\<lparr>outbox := outbox w @
                  [\<lparr>toChannel = ch, body = PING @ [CHR 0x0A] @ m, delivered = False\<rparr>]\<rparr>"
      using r Throw milestone_cases[of w k c gw ch m] by (auto split: if_splits)
    with el w' b show ?thesis
      by (intro exI[of _ "[]"] exI[of _ k] exI[of _ c] exI[of _ m] exI[of _ bs] exI[of _ w]) simp
  next
    case (Return u)
    then have "runBlocks gw ch bs w1 = (Throw, w')" using Cons.prems r b by simp
    from Cons.IH[OF this] obtain pre k' c' m' post w2 where
      "bs = pre @ (k', c', m') # post" "runBlocks gw ch pre w1 = (Return (), w2)"
      "\<not> flagSet (mem w2) k'" "c'"
      "w' = w2\<lparr>outbox := outbox w2 @
                  [\<lparr>toChannel = ch, body = PING @ [CHR 0x0A] @ m', delivered = False\<rparr>]\<rparr>"
      by blast
    then show ?thesis
      using r Return b
      by (intro exI[of _ "b # pre"] exI[of _ k'] exI[of _ c'] exI[of _ m'] exI[of _ post] exI[of _ w2])
         simp
  qed
qed

lemma runBlocks_reliable:
  "reliable gw \<Longrightarrow> fst (runBlocks gw ch bs w) = Return ()"
proof (induction bs arbitrary: w)
  case Nil
  show ?case by simp
next
  case (Cons b bs)
  obtain k c m where b: "b = (k, c, m)" by (cases b)
  have "fst (milestone gw ch k c m w) = Return ()"
    using Cons.prems by (simp add: milestone_def send_def reliable_def Let_def)
  then obtain w1 where "milestone gw ch k c m w = (Return (), w1)"
    by (cases "milestone gw ch k c m w") auto
  with Cons.IH[OF Cons.prems, of w1] b show ?case by simp
qed

lemma runBlocks_skip_all:
  "\<forall>(k, c, m)\<in>set bs. flagSet (mem w) k \<or> \<not> c \<Longrightarrow> runBlocks gw ch bs w = (Return (), w)"
  by (induction bs) (auto simp: milestone_skip)

lemma runBlocks_other_gateway:
  "runBlocks gw ch bs w = (Return (), w') \<Longrightarrow> reliable gw2 \<Longrightarrow> runBlocks gw2 ch bs w = (Return (), w')"
proof (induction bs arbitrary: w)
  case Nil
  then show ?case by simp
next
  case (Cons b bs)
  obtain k c m where b: "b = (k, c, m)" by (cases b)
  obtain r w1 where r: "milestone gw ch k c m w = (r, w1)" by fastforce
  have rR: "r = Return ()" and rest: "runBlocks gw ch bs w1 = (Return (), w')"
    using Cons.prems(1) r b by (cases r; simp)+
  have "milestone gw2 ch k c m w = (Return (), w1)"
  proof (cases "flagSet (mem w) k \<or> \<not> c")
    case True
    then show ?thesis using r rR by (simp add: milestone_skip)
  next
    case False
    then have nk: "\<not> flagSet (mem w) k" and c: "c" by auto
    have "sendOk gw (length (outbox w)) ch (PING @ [CHR 0x0A] @ m)"
      using r rR milestone_cases[OF nk c, of gw ch m] by (auto split: if_splits)
    moreover have "sendOk gw2 (length (outbox w)) ch (PING @ [CHR 0x0A] @ m)"
      using Cons.prems(2) by (simp add: reliable_def)
    ultimately show ?thesis
      using r rR milestone_cases[OF nk c, of gw ch m] milestone_cases[OF nk c, of gw2 ch m] by simp
  qed
  with Cons.IH[OF rest Cons.prems(2)] b show ?case by simp
qed


lemma milestone_guard:
  "milestone gw ch k c m (w\<lparr>runCheckRunning := b\<rparr>) =
   (fst (milestone gw ch k c m w), (snd (milestone gw ch k c m w))\<lparr>runCheckRunning := b\<rparr>)"
  by (simp add: milestone_def send_def saveState_def Let_def flagSet_def)

lemma runBlocks_guard:
  "runBlocks gw ch bs (w\<lparr>runCheckRunning := b\<rparr>) =
   (fst (runBlocks gw ch bs w), (snd (runBlocks gw ch bs w))\<lparr>runCheckRunning := b\<rparr>)"
proof (induction bs arbitrary: w)
  case Nil
  show ?case by simp
next
  case (Cons x bs)
  obtain k c m where x: "x = (k, c, m)" by (cases x)
  obtain r w1 where r: "milestone gw ch k c m w = (r, w1)" by fastforce
  show ?case
    using r x Cons.IH[of w1] by (cases r) (simp_all add: milestone_guard)
qed

lemma runCheck_ready:
  assumes "ready gw w"
  shows "\<exists>ch. getPingChannelId (config (mem w)) None = Some ch \<and>
           fetchChannel gw ch = Channel True \<and>
           snd (runCheck gw now (Some evs) w) =
             snd (runBlocks gw ch (blocks (config (mem w)) now evs) w)"
proof -
  from assms obtain ch where ch: "getPingChannelId (config (mem w)) None = Some ch"
    "fetchChannel gw ch = Channel True" and g: "\<not> runCheckRunning w"
    by (auto simp: ready_def split: option.splits)
  let ?r = "runBlocks gw ch (blocks (config (mem w)) now evs) w"
  have keep: "runCheckRunning (snd ?r) = runCheckRunning w"
    using runBlocks_effect[of gw ch "blocks (config (mem w)) now evs" w] by blast
  have "runCheckTry gw now (Some evs) (w\<lparr>runCheckRunning := True\<rparr>) =
          (fst ?r, (snd ?r)\<lparr>runCheckRunning := True\<rparr>)"
    using ch by (simp add: runCheckTry_def checkEvents_blocks runBlocks_guard)
  then have "snd (runCheck gw now (Some evs) w) = (snd ?r)\<lparr>runCheckRunning := False\<rparr>"
    using g by (cases "fst ?r") (simp_all add: runCheck_def catchLog_def)
  also have "\<dots> = snd ?r"
    using keep g by (cases "snd ?r") simp
  finally show ?thesis using ch by blast
qed

lemma milestone_reliable:
  "reliable gw \<Longrightarrow> milestone gw ch k c m w =
     (Return (),
      if \<not> flagSet (mem w) k \<and> c then
        w\<lparr>mem := (mem w)\<lparr>flags := (flags (mem w))(k \<mapsto> True)\<rparr>,
          disk := (mem w)\<lparr>flags := (flags (mem w))(k \<mapsto> True)\<rparr>,
          saves := Suc (saves w),
          outbox := outbox w @ [\<lparr>toChannel = ch, body = PING @ [CHR 0x0A] @ m, delivered = True\<rparr>]\<rparr>
      else w)"
  by (simp add: milestone_def send_def saveState_def Let_def reliable_def)

lemma runBlocks_shift:
  "reliable gw \<Longrightarrow> mem v = mem w \<Longrightarrow>
     mem (snd (runBlocks gw ch bs v)) = mem (snd (runBlocks gw ch bs w)) \<and>
     map body (fresh v (snd (runBlocks gw ch bs v))) = map body (fresh w (snd (runBlocks gw ch bs w)))"
proof (induction bs arbitrary: v w)
  case Nil
  show ?case using Nil by (simp add: fresh_def)
next
  case (Cons x bs)
  obtain k c m where x: "x = (k, c, m)" by (cases x)
  show ?case
  proof (cases "\<not> flagSet (mem w) k \<and> c")
    case False
    then have Fv: "\<not> (\<not> flagSet (mem v) k \<and> c)" using Cons.prems(2) by simp
    have rw: "runBlocks gw ch (x # bs) w = runBlocks gw ch bs w"
      using False x by (auto simp: milestone_skip)
    have rv: "runBlocks gw ch (x # bs) v = runBlocks gw ch bs v"
      using Fv x by (auto simp: milestone_skip)
    show ?thesis
      unfolding rw rv using Cons.IH[OF Cons.prems] .
  next
    case True
    let ?a = "\<lparr>toChannel = ch, body = PING @ [CHR 0x0A] @ m, delivered = True\<rparr>"
    let ?w1 = "w\<lparr>mem := (mem w)\<lparr>flags := (flags (mem w))(k \<mapsto> True)\<rparr>,
          disk := (mem w)\<lparr>flags := (flags (mem w))(k \<mapsto> True)\<rparr>,
          saves := Suc (saves w), outbox := outbox w @ [?a]\<rparr>"
    let ?v1 = "v\<lparr>mem := (mem v)\<lparr>flags := (flags (mem v))(k \<mapsto> True)\<rparr>,
          disk := (mem v)\<lparr>flags := (flags (mem v))(k \<mapsto> True)\<rparr>,
          saves := Suc (saves v), outbox := outbox v @ [?a]\<rparr>"
    have Tv: "\<not> flagSet (mem v) k \<and> c" using True Cons.prems(2) by simp
    have rw: "runBlocks gw ch (x # bs) w = runBlocks gw ch bs ?w1"
      using True x Cons.prems(1) by (simp add: milestone_reliable)
    have rv: "runBlocks gw ch (x # bs) v = runBlocks gw ch bs ?v1"
      using Tv x Cons.prems(1) by (simp add: milestone_reliable)
    have m1: "mem ?v1 = mem ?w1" using Cons.prems(2) by simp
    note IH = Cons.IH[OF Cons.prems(1) m1]
    obtain aw where aw: "outbox (snd (runBlocks gw ch bs ?w1)) = outbox ?w1 @ aw"
      using runBlocks_outbox by blast
    obtain av where av: "outbox (snd (runBlocks gw ch bs ?v1)) = outbox ?v1 @ av"
      using runBlocks_outbox by blast
    have fw: "fresh w (snd (runBlocks gw ch bs ?w1)) = ?a # fresh ?w1 (snd (runBlocks gw ch bs ?w1))"
      using aw by (simp add: fresh_def)
    have fv: "fresh v (snd (runBlocks gw ch bs ?v1)) = ?a # fresh ?v1 (snd (runBlocks gw ch bs ?v1))"
      using av by (simp add: fresh_def)
    show ?thesis
      unfolding rw rv fw fv using IH by simp
  qed
qed

lemma runBlocks_retry:
  assumes thrown: "runBlocks gw ch bs w = (Throw, w')" and rel: "reliable gw2"
  shows "mem (snd (runBlocks gw2 ch bs w')) = mem (snd (runBlocks gw2 ch bs w)) \<and>
         map body (filter delivered (fresh w (snd (runBlocks gw2 ch bs w')))) =
           map body (fresh w (snd (runBlocks gw2 ch bs w)))"
proof -
  from runBlocks_Throw[OF thrown] obtain pre k c m post w1 where
    bs: "bs = pre @ (k, c, m) # post" and
    pre: "runBlocks gw ch pre w = (Return (), w1)" and
    w': "w' = w1\<lparr>outbox := outbox w1 @
                  [\<lparr>toChannel = ch, body = PING @ [CHR 0x0A] @ m, delivered = False\<rparr>]\<rparr>"
    by blast
  let ?rest = "(k, c, m) # post"
  let ?u = "snd (runBlocks gw2 ch ?rest w1)"
  let ?t = "snd (runBlocks gw2 ch ?rest w')"
  have und: "runBlocks gw2 ch bs w = runBlocks gw2 ch ?rest w1"
    using runBlocks_other_gateway[OF pre rel] unfolding bs runBlocks_append by simp
  have "\<forall>(k, c, m)\<in>set pre. flagSet (mem w') k \<or> \<not> c"
    using runBlocks_Return[OF pre] w' by auto
  then have "runBlocks gw2 ch pre w' = (Return (), w')"
    by (rule runBlocks_skip_all)
  then have ret: "runBlocks gw2 ch bs w' = runBlocks gw2 ch ?rest w'"
    unfolding bs runBlocks_append by simp
  have mw: "mem w' = mem w1" using w' by simp
  note sh = runBlocks_shift[OF rel mw, of ch ?rest]
  obtain a0 where a0: "outbox w1 = outbox w @ a0"
    using runBlocks_outbox[of gw ch pre w] pre by auto
  have d0: "\<forall>a\<in>set a0. delivered a"
    using runBlocks_Return[OF pre] fresh_append[OF a0] by simp
  obtain au where au: "outbox ?u = outbox w1 @ au"
    using runBlocks_outbox by blast
  obtain atr where atr: "outbox ?t = outbox w' @ atr"
    using runBlocks_outbox by blast
  have "fst (runBlocks gw2 ch ?rest w') = Return ()"
    using rel by (rule runBlocks_reliable)
  then have "runBlocks gw2 ch ?rest w' = (Return (), ?t)"
    by (metis prod.collapse)
  from runBlocks_Return[OF this] have dt: "\<forall>a\<in>set atr. delivered a"
    using fresh_append[OF atr] by simp
  have fu: "fresh w ?u = a0 @ au" using a0 au by (simp add: fresh_def)
  have ft: "fresh w ?t = a0 @ \<lparr>toChannel = ch, body = PING @ [CHR 0x0A] @ m, delivered = False\<rparr> # atr"
    using a0 atr w' by (simp add: fresh_def)
  have "map body atr = map body au"
    using sh fresh_append[OF atr] fresh_append[OF au] by simp
  then have "map body (filter delivered (fresh w ?t)) = map body (fresh w ?u)"
    unfolding fu ft using d0 dt by simp
  with sh show ?thesis unfolding und ret by simp
qed


lemma blocks_stones:
  "blocks cfg now evs =
   map (\<lambda>x. (keyOf x, triggered now x, messageOf cfg (fst (snd x)) (snd (snd x)))) (stones evs)"
  by (auto simp: blocks_def)

lemma textOf_eq: "textOf cfg x = PING @ [CHR 0x0A] @ messageOf cfg (fst (snd x)) (snd (snd x))"
  by (cases x) (simp add: announcement_def)

lemma blocks_keys: "map fst (blocks cfg now evs) = map keyOf (stones evs)"
  by (simp add: blocks_stones comp_def)

lemma blocks_bodies:
  "map (\<lambda>(k, c, m). PING @ [CHR 0x0A] @ m) (filter (\<lambda>(k, c, m). \<not> flagSet st k \<and> c) (blocks cfg now evs)) =
   map (textOf cfg) (filter (\<lambda>x. \<not> flagSet st (keyOf x) \<and> triggered now x) (stones evs))"
  by (simp add: blocks_stones filter_map comp_def textOf_eq)

lemma blocks_ex:
  "(\<exists>(k', c, m)\<in>set (blocks cfg now evs). P k' c m) =
   (\<exists>x\<in>set (stones evs). P (keyOf x) (triggered now x) (messageOf cfg (fst (snd x)) (snd (snd x))))"
  by (auto simp: blocks_stones)

lemma poll_reliable:
  assumes "ready gw w" "reliable gw"
  shows "(\<forall>k. flagSet (mem (snd (runCheck gw now (Some evs) w))) k =
            (flagSet (mem w) k \<or> (\<exists>x\<in>set (stones evs). keyOf x = k \<and> triggered now x))) \<and>
         (\<forall>a\<in>set (fresh w (snd (runCheck gw now (Some evs) w))). delivered a) \<and>
         (distinct (map keyOf (stones evs)) \<longrightarrow>
            map body (fresh w (snd (runCheck gw now (Some evs) w))) =
              map (textOf (config (mem w)))
                (filter (\<lambda>x. \<not> flagSet (mem w) (keyOf x) \<and> triggered now x) (stones evs)))"
proof -
  from runCheck_ready[OF assms(1), of now evs] obtain ch where
    eq: "snd (runCheck gw now (Some evs) w) = snd (runBlocks gw ch (blocks (config (mem w)) now evs) w)"
    by blast
  let ?bs = "blocks (config (mem w)) now evs"
  have "fst (runBlocks gw ch ?bs w) = Return ()"
    using assms(2) by (rule runBlocks_reliable)
  then have "runBlocks gw ch ?bs w = (Return (), snd (runBlocks gw ch ?bs w))"
    by (metis prod.collapse)
  from runBlocks_Return[OF this] show ?thesis
    unfolding eq blocks_keys blocks_bodies blocks_ex by simp
qed



lemma flagKey_inj: "flagKey K m ev = flagKey K m' ev \<Longrightarrow> m = m'"
  by (cases K; cases m; cases m') (simp_all add: makeKey_def Let_def)

lemma messageOf_inj: "messageOf cfg K m = messageOf cfg K m' \<Longrightarrow> m = m'"
  by (cases K; cases m; cases m')
     (simp_all add: aooOpenMsg_def aooWarnMsg_def aooClosedMsg_def mgeOpenMsg_def mgeWarnMsg_def
        mgeClosedMsg_def Let_def split: if_splits)

lemma stones_single:
  "windowKindOf ev = Some K \<Longrightarrow> stones [ev] = [(ev, K, Opened), (ev, K, Warning), (ev, K, Closed)]"
  by (simp add: stones_def stonesOf_def)

lemma stones_single_distinct: "distinct (map keyOf (stones [ev]))"
proof (cases "windowKindOf ev")
  case None
  then show ?thesis by (simp add: stones_def stonesOf_def)
next
  case (Some K)
  have "flagKey K Opened ev \<noteq> flagKey K Warning ev" "flagKey K Opened ev \<noteq> flagKey K Closed ev"
    "flagKey K Warning ev \<noteq> flagKey K Closed ev"
    using flagKey_inj[of K _ ev] by fastforce+
  then show ?thesis by (simp add: stones_single[OF Some])
qed

lemma catch_up_after_end:
  assumes "ready gw w" and "reliable gw" and "getEventType ev = Some ''ark_registration''"
    and "evStart ev \<le> now" and "evEnd ev \<le> now"
    and "\<not> flagSet (mem w) (makeKey ''AOO_REG'' ev ''open_at_start'')"
    and "\<not> flagSet (mem w) (makeKey ''AOO_REG'' ev ''6h_before_end'')"
    and "\<not> flagSet (mem w) (makeKey ''AOO_REG'' ev ''closed_at_end'')"
  shows "map body (fresh w (snd (runCheck gw now (Some [ev]) w))) =
           [PING @ [CHR 0x0A] @ aooOpenMsg (config (mem w)), PING @ [CHR 0x0A] @ aooClosedMsg] \<and>
         (\<forall>a\<in>set (fresh w (snd (runCheck gw now (Some [ev]) w))). delivered a) \<and>
         flagSet (mem (snd (runCheck gw now (Some [ev]) w))) (makeKey ''AOO_REG'' ev ''open_at_start'') \<and>
         \<not> flagSet (mem (snd (runCheck gw now (Some [ev]) w))) (makeKey ''AOO_REG'' ev ''6h_before_end'') \<and>
         flagSet (mem (snd (runCheck gw now (Some [ev]) w))) (makeKey ''AOO_REG'' ev ''closed_at_end'')"
proof -
  have K: "windowKindOf ev = Some RegistrationWindow"
    using assms(3) by (simp add: windowKindOf_def)
  note st = stones_single[OF K]
  note pr = poll_reliable[OF assms(1,2), of now "[ev]"]
  have d: "distinct (map keyOf (stones [ev]))" by (rule stones_single_distinct)
  have ne: "makeKey ''AOO_REG'' ev ''6h_before_end'' \<noteq> makeKey ''AOO_REG'' ev ''open_at_start''"
    "makeKey ''AOO_REG'' ev ''6h_before_end'' \<noteq> makeKey ''AOO_REG'' ev ''closed_at_end''"
    by (simp_all add: makeKey_def Let_def)
  from pr d have "map body (fresh w (snd (runCheck gw now (Some [ev]) w))) =
              map (textOf (config (mem w)))
                (filter (\<lambda>x. \<not> flagSet (mem w) (keyOf x) \<and> triggered now x) (stones [ev]))"
    by blast
  then have 1: "map body (fresh w (snd (runCheck gw now (Some [ev]) w))) =
           [PING @ [CHR 0x0A] @ aooOpenMsg (config (mem w)), PING @ [CHR 0x0A] @ aooClosedMsg]"
    using assms(4-8) by (simp add: st announcement_def)
  from pr have fl: "\<And>k. flagSet (mem (snd (runCheck gw now (Some [ev]) w))) k =
            (flagSet (mem w) k \<or> (\<exists>x\<in>set (stones [ev]). keyOf x = k \<and> triggered now x))"
    by blast
  have 2: "flagSet (mem (snd (runCheck gw now (Some [ev]) w))) (makeKey ''AOO_REG'' ev ''open_at_start'')"
    "flagSet (mem (snd (runCheck gw now (Some [ev]) w))) (makeKey ''AOO_REG'' ev ''closed_at_end'')"
    using assms(4,5) by (simp_all add: fl st)
  have 3: "\<not> flagSet (mem (snd (runCheck gw now (Some [ev]) w))) (makeKey ''AOO_REG'' ev ''6h_before_end'')"
    using assms(5,7) ne by (simp add: fl st)
  from pr have 4: "\<forall>a\<in>set (fresh w (snd (runCheck gw now (Some [ev]) w))). delivered a"
    by blast
  from 1 2 3 4 show ?thesis by blast
qed


lemma demo_ready: "ready demoGateway pollWorld"
  by (simp add: ready_def getPingChannelId_def truthy_def pollWorld_def pollState_def demoConfig_def
        demoGateway_def demoFetch_def)

lemma demo_reliable: "reliable demoGateway"
  by (simp add: reliable_def demoGateway_def)

lemma demo_type: "getEventType demoEvent = Some ''ark_registration''"
  by code_simp

lemma demo_key:
  "makeKey ''AOO_REG'' demoEvent ''open_at_start'' = ''AOO_REG_E1_2025-01-10_open_at_start''"
  by code_simp

lemma demo_times: "evStart demoEvent = 1736467200000" "evEnd demoEvent = 1736640000000"
  by (simp_all add: demoEvent_def)

lemma demo_kind: "windowKindOf demoEvent = Some RegistrationWindow"
  by (simp add: windowKindOf_def demo_type)

lemma demo_unflagged: "\<not> flagSet (mem pollWorld) k"
  by (simp add: flagSet_def pollWorld_def pollState_def)

text \<open>
  C1, as amended. When a poll runs on a registration window with \<open>now\<close> past the start and
  past the end (so past the end minus six hours too), no flag of the event being set and the
  gateway delivering, exactly two messages go out in that cycle, opened and then closed, each
  once; the warning is not sent and its flag stays unset, because its condition asks for
  \<open>now < end\<close>.
\<close>

theorem catch_up_sends_opened_then_closed:
  assumes "ready gw w" and "reliable gw" and "getEventType ev = Some ''ark_registration''"
    and "evStart ev \<le> now" and "evEnd ev \<le> now"
    and "\<not> flagSet (mem w) (makeKey ''AOO_REG'' ev ''open_at_start'')"
    and "\<not> flagSet (mem w) (makeKey ''AOO_REG'' ev ''6h_before_end'')"
    and "\<not> flagSet (mem w) (makeKey ''AOO_REG'' ev ''closed_at_end'')"
  shows "map body (fresh w (snd (runCheck gw now (Some [ev]) w))) =
           [PING @ [CHR 0x0A] @ aooOpenMsg (config (mem w)), PING @ [CHR 0x0A] @ aooClosedMsg] \<and>
         (\<forall>a\<in>set (fresh w (snd (runCheck gw now (Some [ev]) w))). delivered a) \<and>
         flagSet (mem (snd (runCheck gw now (Some [ev]) w))) (makeKey ''AOO_REG'' ev ''open_at_start'') \<and>
         \<not> flagSet (mem (snd (runCheck gw now (Some [ev]) w))) (makeKey ''AOO_REG'' ev ''6h_before_end'') \<and>
         flagSet (mem (snd (runCheck gw now (Some [ev]) w))) (makeKey ''AOO_REG'' ev ''closed_at_end'')"
  using assms by (rule catch_up_after_end)

theorem catch_up_sends_opened_then_closed_witness:
  "ready demoGateway pollWorld \<and> reliable demoGateway \<and>
   getEventType demoEvent = Some ''ark_registration'' \<and>
   evStart demoEvent \<le> 1736726400000 \<and> evEnd demoEvent \<le> 1736726400000 \<and>
   map body (fresh pollWorld (snd (runCheck demoGateway 1736726400000 (Some [demoEvent]) pollWorld))) =
     [''@everyone'' @ [CHR 0x0A] @ ''AOO registration is opened. Reach out to the AOO team for registration!'',
      ''@everyone'' @ [CHR 0x0A] @ ''AOO registration closed'']"
proof -
  have t: "evStart demoEvent \<le> 1736726400000" "evEnd demoEvent \<le> 1736726400000"
    by (simp_all add: demoEvent_def)
  from catch_up_sends_opened_then_closed[OF demo_ready demo_reliable demo_type t
      demo_unflagged demo_unflagged demo_unflagged]
  have "map body (fresh pollWorld (snd (runCheck demoGateway 1736726400000 (Some [demoEvent]) pollWorld))) =
     [PING @ [CHR 0x0A] @ aooOpenMsg (config (mem pollWorld)), PING @ [CHR 0x0A] @ aooClosedMsg]"
    by blast
  also have "\<dots> = [''@everyone'' @ [CHR 0x0A] @ ''AOO registration is opened. Reach out to the AOO team for registration!'',
      ''@everyone'' @ [CHR 0x0A] @ ''AOO registration closed'']"
    by (simp add: PING_def aooOpenMsg_def aooClosedMsg_def getAooRoleMention_def truthy_def
          pollWorld_def pollState_def demoConfig_def)
  finally show ?thesis
    using demo_ready demo_reliable demo_type t by blast
qed

theorem catch_up_three_messages_counterexample:
  "evStart demoEvent \<le> 1736726400000 \<and> addHours (evEnd demoEvent) (- 6) \<le> 1736726400000 \<and>
   evEnd demoEvent \<le> 1736726400000 \<and> flags (mem pollWorld) = Map.empty \<and>
   length (fresh pollWorld (snd (runCheck demoGateway 1736726400000 (Some [demoEvent]) pollWorld))) = 2 \<and>
   PING @ [CHR 0x0A] @ aooWarnMsg \<notin>
     set (map body (fresh pollWorld (snd (runCheck demoGateway 1736726400000 (Some [demoEvent]) pollWorld))))"
proof -
  have t: "evStart demoEvent \<le> 1736726400000" "evEnd demoEvent \<le> 1736726400000"
    "addHours (evEnd demoEvent) (- 6) \<le> 1736726400000"
    by (simp_all add: demoEvent_def addHours_def)
  from catch_up_after_end[OF demo_ready demo_reliable demo_type t(1,2)
      demo_unflagged demo_unflagged demo_unflagged]
  have m: "map body (fresh pollWorld (snd (runCheck demoGateway 1736726400000 (Some [demoEvent]) pollWorld))) =
     [PING @ [CHR 0x0A] @ aooOpenMsg (config (mem pollWorld)), PING @ [CHR 0x0A] @ aooClosedMsg]"
    by blast
  have l: "length (fresh pollWorld (snd (runCheck demoGateway 1736726400000 (Some [demoEvent]) pollWorld))) = 2"
    using arg_cong[OF m, of length] by simp
  have n: "PING @ [CHR 0x0A] @ aooWarnMsg \<notin>
     set (map body (fresh pollWorld (snd (runCheck demoGateway 1736726400000 (Some [demoEvent]) pollWorld))))"
    unfolding m
    by (simp add: aooOpenMsg_def aooWarnMsg_def aooClosedMsg_def Let_def)
  have e: "flags (mem pollWorld) = Map.empty"
    by (simp add: pollWorld_def pollState_def)
  from t l n e show ?thesis by blast
qed


subsection \<open>Flag keys of different events\<close>

lemma showNat_digits: "set (showNat n) \<subseteq> set digits"
proof (induction n rule: showNat.induct)
  case (1 n)
  have d: "\<And>k. k < 10 \<Longrightarrow> digits ! k \<in> set digits"
    by (rule nth_mem) (simp add: digits_def)
  show ?case
  proof (cases "n < 10")
    case True
    then show ?thesis using d[of n] by (subst showNat.simps) simp
  next
    case False
    have "n mod 10 < 10" by simp
    then have "digits ! (n mod 10) \<in> set digits" by (rule d)
    with False 1 show ?thesis by (subst showNat.simps) simp
  qed
qed

lemma showInt_chars: "CHR ''_'' \<notin> set (showInt i)"
  using showNat_digits[of "nat (- i)"] showNat_digits[of "nat i"]
  by (auto simp: showInt_def digits_def)

lemma pad2_chars: "CHR ''_'' \<notin> set (pad2 i)"
  using showInt_chars[of i] by (auto simp: pad2_def Let_def)

lemma isoDateUTC_chars: "CHR ''_'' \<notin> set (isoDateUTC t)"
  using showInt_chars pad2_chars by (simp add: isoDateUTC_def Let_def)

lemma same_head_split:
  "c \<notin> set a \<Longrightarrow> c \<notin> set b \<Longrightarrow> a @ c # x = b @ c # y \<Longrightarrow> a = b \<and> x = y"
proof (induction a arbitrary: b)
  case Nil
  then show ?case by (cases b) auto
next
  case (Cons e a)
  then show ?case by (cases b) auto
qed

lemma same_tail_split:
  assumes "c \<notin> set d1" "c \<notin> set d2" "x @ c # d1 = y @ c # d2"
  shows "x = y \<and> d1 = d2"
proof -
  from assms(3) have "rev (x @ c # d1) = rev (y @ c # d2)" by simp
  then have "rev d1 @ c # rev x = rev d2 @ c # rev y" by simp
  with same_head_split[of c "rev d1" "rev d2" "rev x" "rev y"] assms(1,2)
  show ?thesis by simp
qed

lemma makeKey_alt:
  "makeKey p ev s = p @ ''_'' @ uidOf ev @ ''_'' @ isoDateUTC (evStart ev) @ ''_'' @ s"
  by (simp add: makeKey_def uidOf_def Let_def)

lemma key_parts:
  assumes "p @ ''_'' @ u1 @ ''_'' @ isoDateUTC t1 @ ''_'' @ s =
           p @ ''_'' @ u2 @ ''_'' @ isoDateUTC t2 @ ''_'' @ s"
  shows "u1 = u2 \<and> isoDateUTC t1 = isoDateUTC t2"
proof -
  from assms have "(p @ ''_'' @ u1 @ ''_'' @ isoDateUTC t1) @ (''_'' @ s) =
                   (p @ ''_'' @ u2 @ ''_'' @ isoDateUTC t2) @ (''_'' @ s)"
    by simp
  then have "p @ ''_'' @ u1 @ ''_'' @ isoDateUTC t1 = p @ ''_'' @ u2 @ ''_'' @ isoDateUTC t2"
    by (simp only: append_same_eq)
  then have "u1 @ CHR ''_'' # isoDateUTC t1 = u2 @ CHR ''_'' # isoDateUTC t2"
    by simp
  with same_tail_split[OF isoDateUTC_chars isoDateUTC_chars] show ?thesis by blast
qed

lemma flagKey_eq:
  assumes "flagKey K m ev = flagKey K' m' ev'"
  shows "K = K' \<and> m = m' \<and> uidOf ev = uidOf ev' \<and> isoDateUTC (evStart ev) = isoDateUTC (evStart ev')"
proof -
  from assms have r: "rev (flagKey K m ev) = rev (flagKey K' m' ev')" by simp
  have km: "K = K' \<and> m = m'"
    using r by (cases K; cases m; cases K'; cases m') (simp_all add: makeKey_alt)
  with assms have "flagKey K m ev = flagKey K m ev'" by simp
  then have "uidOf ev = uidOf ev' \<and> isoDateUTC (evStart ev) = isoDateUTC (evStart ev')"
    by (cases K; cases m) (auto simp only: flagKey.simps makeKey_alt dest!: key_parts)
  with km show ?thesis by simp
qed

lemma stones_Cons: "stones (ev # evs) = stonesOf ev @ stones evs"
  by (simp add: stones_def)

lemma stones_member:
  "x \<in> set (stones evs) \<Longrightarrow>
   \<exists>ev K m. x = (ev, K, m) \<and> ev \<in> set evs \<and> windowKindOf ev = Some K"
  by (auto simp: stones_def stonesOf_def split: option.splits)

lemma identities_Cons:
  "identities (ev # evs) =
   (case windowKindOf ev of None \<Rightarrow> identities evs
    | Some K \<Rightarrow> (Some K, uidOf ev, isoDateUTC (evStart ev)) # identities evs)"
  by (simp add: identities_def split: option.splits)

lemma identities_member:
  "ev \<in> set evs \<Longrightarrow> windowKindOf ev = Some K \<Longrightarrow>
   (Some K, uidOf ev, isoDateUTC (evStart ev)) \<in> set (identities evs)"
  by (force simp: identities_def)

lemma stones_keys_distinct:
  "distinct (identities evs) \<Longrightarrow> distinct (map keyOf (stones evs))"
proof (induction evs)
  case Nil
  show ?case by (simp add: stones_def)
next
  case (Cons ev evs)
  show ?case
  proof (cases "windowKindOf ev")
    case None
    with Cons show ?thesis
      by (simp add: stones_Cons stonesOf_def identities_Cons)
  next
    case (Some K)
    with Cons.prems have fresh_id: "(Some K, uidOf ev, isoDateUTC (evStart ev)) \<notin> set (identities evs)"
      and d: "distinct (identities evs)"
      by (simp_all add: identities_Cons)
    have own: "distinct (map keyOf (stonesOf ev))"
      using stones_single_distinct[of ev] by (simp add: stones_def)
    have apart: "keyOf x \<noteq> keyOf y" if x: "x \<in> set (stonesOf ev)" and y: "y \<in> set (stones evs)" for x y
    proof
      assume eq: "keyOf x = keyOf y"
      from x Some obtain m where xm: "x = (ev, K, m)"
        by (auto simp: stonesOf_def)
      from stones_member[OF y] obtain ev' K' m' where
        ym: "y = (ev', K', m')" "ev' \<in> set evs" "windowKindOf ev' = Some K'"
        by blast
      from eq xm ym(1) have "flagKey K m ev = flagKey K' m' ev'" by simp
      from flagKey_eq[OF this] have "K = K'" "uidOf ev = uidOf ev'"
        "isoDateUTC (evStart ev) = isoDateUTC (evStart ev')" by simp_all
      with identities_member[OF ym(2,3)] fresh_id show False by simp
    qed
    from own Cons.IH[OF d] apart show ?thesis
      by (auto simp: stones_Cons)
  qed
qed

lemma poll_reliable_feed:
  assumes "ready gw w" and "reliable gw"
  shows "(\<forall>k. flagSet (mem (snd (runCheck gw now (Some evs) w))) k =
            (flagSet (mem w) k \<or>
             (\<exists>(ev, K, m)\<in>set (stones evs). flagKey K m ev = k \<and>
                 tableTrigger K m (evStart ev) (evEnd ev) now))) \<and>
         (\<forall>a\<in>set (fresh w (snd (runCheck gw now (Some evs) w))). delivered a) \<and>
         (distinct (identities evs) \<longrightarrow>
            map body (fresh w (snd (runCheck gw now (Some evs) w))) =
              map (\<lambda>(ev, K, m). announcement (config (mem w)) K m)
                (filter (\<lambda>(ev, K, m). \<not> flagSet (mem w) (flagKey K m ev) \<and>
                           tableTrigger K m (evStart ev) (evEnd ev) now) (stones evs)))"
proof -
  have t: "(\<lambda>(ev, K, m). announcement (config (mem w)) K m) = textOf (config (mem w))"
    by (auto simp: fun_eq_iff)
  have f: "(\<lambda>(ev, K, m). \<not> flagSet (mem w) (flagKey K m ev) \<and>
                           tableTrigger K m (evStart ev) (evEnd ev) now) =
           (\<lambda>x. \<not> flagSet (mem w) (keyOf x) \<and> triggered now x)"
    by (auto simp: fun_eq_iff)
  have e: "\<And>k. (\<exists>(ev, K, m)\<in>set (stones evs). flagKey K m ev = k \<and>
                 tableTrigger K m (evStart ev) (evEnd ev) now) =
           (\<exists>x\<in>set (stones evs). keyOf x = k \<and> triggered now x)"
    by (rule bex_cong[OF refl]) auto
  show ?thesis
    unfolding t f e using poll_reliable[OF assms, of now evs] stones_keys_distinct[of evs] by blast
qed

lemma second_type: "getEventType secondEvent = Some ''ark_registration''"
  by code_simp

lemma two_identities: "distinct (identities [demoEvent, secondEvent])"
  by code_simp

lemma two_stones:
  "stones [demoEvent, secondEvent] =
     [(demoEvent, RegistrationWindow, Opened), (demoEvent, RegistrationWindow, Warning),
      (demoEvent, RegistrationWindow, Closed), (secondEvent, RegistrationWindow, Opened),
      (secondEvent, RegistrationWindow, Warning), (secondEvent, RegistrationWindow, Closed)]"
  by (simp add: stones_def stonesOf_def windowKindOf_def demo_type second_type)

text \<open>
  C2. In a poll cycle that can start and whose sends are delivered, a milestone of a fetched
  event with a recognised type tag fires exactly when its flag is not yet set and the trigger
  of the specification's table holds at the cycle's \<open>now\<close>: the flags set after the cycle
  are those set before and those of the triggered milestones, and every send is delivered. For
  a feed of any length whose recognised events differ in window kind, identifier or UTC day of
  start, the messages sent are those of the triggered unflagged milestones, in feed order and
  opened, warning, closed within an event.
\<close>

theorem milestones_fire_by_table:
  assumes "ready gw w" and "reliable gw"
  shows "(\<forall>k. flagSet (mem (snd (runCheck gw now (Some evs) w))) k =
            (flagSet (mem w) k \<or>
             (\<exists>(ev, K, m)\<in>set (stones evs). flagKey K m ev = k \<and>
                 tableTrigger K m (evStart ev) (evEnd ev) now))) \<and>
         (\<forall>a\<in>set (fresh w (snd (runCheck gw now (Some evs) w))). delivered a) \<and>
         (distinct (identities evs) \<longrightarrow>
            map body (fresh w (snd (runCheck gw now (Some evs) w))) =
              map (\<lambda>(ev, K, m). announcement (config (mem w)) K m)
                (filter (\<lambda>(ev, K, m). \<not> flagSet (mem w) (flagKey K m ev) \<and>
                           tableTrigger K m (evStart ev) (evEnd ev) now) (stones evs)))"
  using assms by (rule poll_reliable_feed)

theorem milestones_fire_by_table_witness:
  "ready demoGateway pollWorld \<and> reliable demoGateway \<and>
   distinct (identities [demoEvent, secondEvent]) \<and>
   map body (fresh pollWorld
       (snd (runCheck demoGateway 1736618400000 (Some [demoEvent, secondEvent]) pollWorld))) =
     [announcement demoConfig RegistrationWindow Opened, announcement demoConfig RegistrationWindow Warning,
      announcement demoConfig RegistrationWindow Opened, announcement demoConfig RegistrationWindow Warning]"
proof -
  have times: "evStart secondEvent = 1736467200000" "evEnd secondEvent = 1736640000000"
    by (simp_all add: secondEvent_def)
  from milestones_fire_by_table[OF demo_ready demo_reliable, of 1736618400000 "[demoEvent, secondEvent]"]
    two_identities
  have "map body (fresh pollWorld
           (snd (runCheck demoGateway 1736618400000 (Some [demoEvent, secondEvent]) pollWorld))) =
              map (\<lambda>(ev, K, m). announcement (config (mem pollWorld)) K m)
                (filter (\<lambda>(ev, K, m). \<not> flagSet (mem pollWorld) (flagKey K m ev) \<and>
                           tableTrigger K m (evStart ev) (evEnd ev) 1736618400000)
                   (stones [demoEvent, secondEvent]))"
    by blast
  also have "\<dots> = [announcement demoConfig RegistrationWindow Opened,
                    announcement demoConfig RegistrationWindow Warning,
                    announcement demoConfig RegistrationWindow Opened,
                    announcement demoConfig RegistrationWindow Warning]"
    unfolding two_stones
    by (simp add: demo_unflagged demo_times times) (simp add: pollWorld_def pollState_def)
  finally show ?thesis
    using demo_ready demo_reliable two_identities by blast
qed


lemma runCheck_shape:
  "snd (runCheck gw now feed w) = w \<or>
   (\<exists>ch evs. feed = Some evs \<and> ready gw w \<and>
      snd (runCheck gw now feed w) = snd (runBlocks gw ch (blocks (config (mem w)) now evs) w))"
proof (cases "runCheckRunning w")
  case True
  then show ?thesis by (simp add: runCheck_def)
next
  case False
  then have lowered: "w\<lparr>runCheckRunning := False\<rparr> = w" by (cases w) simp
  show ?thesis
  proof (cases "\<exists>evs. feed = Some evs \<and> ready gw w")
    case True
    then obtain evs where "feed = Some evs" "ready gw w" by blast
    with runCheck_ready[of gw w now evs] show ?thesis by blast
  next
    case nr: False
    have "snd (runCheck gw now feed w) = w"
    proof (cases "getPingChannelId (config (mem w)) None")
      case None
      then show ?thesis using False lowered by (simp add: runCheck_def runCheckTry_def catchLog_def)
    next
      case (Some ch)
      show ?thesis
      proof (cases "fetchChannel gw ch")
        case FetchRejects
        then show ?thesis using False lowered Some by (simp add: runCheck_def runCheckTry_def catchLog_def)
      next
        case NoChannel
        then show ?thesis using False lowered Some by (simp add: runCheck_def runCheckTry_def catchLog_def)
      next
        case (Channel tb)
        show ?thesis
        proof (cases tb)
          case f: False
          then show ?thesis using False lowered Some Channel
            by (simp add: runCheck_def runCheckTry_def catchLog_def)
        next
          case True
          then have "ready gw w" using False Some Channel by (simp add: ready_def)
          with nr have "feed = None" by (cases feed) auto
          then show ?thesis using False lowered Some Channel True
            by (simp add: runCheck_def runCheckTry_def catchLog_def)
        qed
      qed
    qed
    then show ?thesis by blast
  qed
qed

lemma runCheck_keeps_flag:
  assumes "flagSet (mem w) k" "flagSet (disk w) k"
  shows "flagSet (mem (snd (runCheck gw now feed w))) k \<and> flagSet (disk (snd (runCheck gw now feed w))) k"
  using runCheck_shape[of gw now feed w]
proof
  assume "snd (runCheck gw now feed w) = w"
  with assms show ?thesis by simp
next
  assume "\<exists>ch evs. feed = Some evs \<and> ready gw w \<and>
      snd (runCheck gw now feed w) = snd (runBlocks gw ch (blocks (config (mem w)) now evs) w)"
  then obtain ch evs where
    eq: "snd (runCheck gw now feed w) = snd (runBlocks gw ch (blocks (config (mem w)) now evs) w)"
    by blast
  show ?thesis
    unfolding eq using runBlocks_effect[of gw ch "blocks (config (mem w)) now evs" w] assms by blast
qed

lemma runCheck_attempts:
  assumes "a \<in> set (fresh w (snd (runCheck gw now feed w)))"
  shows "\<exists>evs. feed = Some evs \<and>
           (\<exists>x\<in>set (stones evs). \<not> flagSet (mem w) (keyOf x) \<and> triggered now x \<and>
              body a = textOf (config (mem w)) x)"
  using runCheck_shape[of gw now feed w]
proof
  assume "snd (runCheck gw now feed w) = w"
  with assms show ?thesis by (simp add: fresh_def)
next
  assume "\<exists>ch evs. feed = Some evs \<and> ready gw w \<and>
      snd (runCheck gw now feed w) = snd (runBlocks gw ch (blocks (config (mem w)) now evs) w)"
  then obtain ch evs where feed: "feed = Some evs" and
    eq: "snd (runCheck gw now feed w) = snd (runBlocks gw ch (blocks (config (mem w)) now evs) w)"
    by blast
  let ?bs = "blocks (config (mem w)) now evs"
  from runBlocks_effect[of gw ch ?bs w] obtain ats where
    ob: "outbox (snd (runBlocks gw ch ?bs w)) = outbox w @ ats" and
    org: "\<forall>a\<in>set ats. \<exists>(k, c, m)\<in>set ?bs. \<not> flagSet (mem w) k \<and> c \<and> toChannel a = ch \<and>
         body a = PING @ [CHR 0x0A] @ m"
    by blast
  have "a \<in> set ats" using assms unfolding eq fresh_append[OF ob] .
  with org have "\<exists>(k, c, m)\<in>set ?bs. \<not> flagSet (mem w) k \<and> c \<and> toChannel a = ch \<and>
         body a = PING @ [CHR 0x0A] @ m" by blast
  then have "\<exists>x\<in>set (stones evs). \<not> flagSet (mem w) (keyOf x) \<and> triggered now x \<and>
              body a = textOf (config (mem w)) x"
    unfolding blocks_ex textOf_eq by blast
  with feed show ?thesis by blast
qed


lemma schedulePing_keeps_flag:
  "flagSet (mem w) k \<Longrightarrow>
   flagSet (mem (schedulePing ch runAt msg gk rnd w)) k \<and> flagSet (disk (schedulePing ch runAt msg gk rnd w)) k"
  by (simp add: schedulePing_def saveState_def flagSet_def)

lemma removeScheduled_keeps_flag:
  "flagSet (mem w) k \<Longrightarrow> flagSet (disk w) k \<Longrightarrow>
   flagSet (mem (snd (removeScheduledByGroupKey gk w))) k \<and>
   flagSet (disk (snd (removeScheduledByGroupKey gk w))) k"
  by (simp add: removeScheduledByGroupKey_def saveState_def flagSet_def Let_def)

lemma processScheduled_keeps_flag:
  assumes "flagSet (mem w) k" "flagSet (disk w) k"
  shows "flagSet (mem (snd (processScheduled gw nowMs w))) k \<and>
         flagSet (disk (snd (processScheduled gw nowMs w))) k"
proof -
  from processScheduled_result[of gw nowMs w] obtain w' where
    "processScheduled gw nowMs w = (Return (), w')" "flags (mem w') = flags (mem w)"
    "if scheduled (mem w') \<noteq> scheduled (mem w)
      then saves w' = Suc (saves w) \<and> disk w' = mem w'
      else saves w' = saves w \<and> disk w' = disk w"
    by blast
  with assms show ?thesis
    by (auto simp: flagSet_def split: if_splits)
qed

lemma respond_world: "snd (respond rt r w) = w"
  by (simp add: respond_def)

lemma hourChosen_keeps_flag:
  assumes "flagSet (mem w) k" "flagSet (disk w) k"
  shows "flagSet (mem (snd (hourChosen rt nowMs rnd1 rnd2 i w))) k \<and>
         flagSet (disk (snd (hourChosen rt nowMs rnd1 rnd2 i w))) k"
  using assms removeScheduled_keeps_flag[OF assms] schedulePing_keeps_flag
  by (auto simp: hourChosen_def Let_def respond_world split: option.splits)

lemma interactionCreate_keeps_flag:
  assumes "flagSet (mem w) k" "flagSet (disk w) k"
  shows "flagSet (mem (snd (interactionCreate rt nowMs rnd1 rnd2 i w))) k \<and>
         flagSet (disk (snd (interactionCreate rt nowMs rnd1 rnd2 i w))) k"
proof -
  have "snd (interactionTry rt nowMs rnd1 rnd2 i w) = w \<or>
        snd (interactionTry rt nowMs rnd1 rnd2 i w) = snd (hourChosen rt nowMs rnd1 rnd2 i w)"
    by (auto simp: interactionTry_def dateChosen_def Let_def respond_world split: option.splits)
  moreover have "snd (interactionCreate rt nowMs rnd1 rnd2 i w) = snd (interactionTry rt nowMs rnd1 rnd2 i w)"
    by (auto simp: interactionCreate_def split: prod.splits outcome.splits)
  ultimately show ?thesis
    using assms hourChosen_keeps_flag[OF assms] by auto
qed

lemma perform_keeps_flag:
  assumes "flagSet (mem w) k" "flagSet (disk w) k"
  shows "flagSet (mem (perform op w)) k \<and> flagSet (disk (perform op w)) k"
proof (cases op)
  case Restart
  with assms show ?thesis by (simp add: restart_def saveState_def flagSet_def)
next
  case (Command c)
  with assms show ?thesis by (simp add: configCommand_def saveState_def flagSet_def Let_def)
next
  case (Poll gw now feed)
  with runCheck_keeps_flag[OF assms] show ?thesis by simp
next
  case (Sweep gw nowMs)
  with processScheduled_keeps_flag[OF assms] show ?thesis by simp
next
  case (Schedule ch runAt msg gk rnd)
  with schedulePing_keeps_flag[OF assms(1)] show ?thesis by simp
next
  case (CancelGroup gk)
  with removeScheduled_keeps_flag[OF assms] show ?thesis by simp
next
  case (Interaction rt nowMs rnd1 rnd2 i)
  with interactionCreate_keeps_flag[OF assms] show ?thesis by simp
qed

lemma performAll_keeps_flag:
  "flagSet (mem w) k \<Longrightarrow> flagSet (disk w) k \<Longrightarrow>
   flagSet (mem (performAll ops w)) k \<and> flagSet (disk (performAll ops w)) k"
proof (induction ops arbitrary: w)
  case Nil
  then show ?case by simp
next
  case (Cons op ops)
  from perform_keeps_flag[OF Cons.prems, of op] Cons.IH[of "perform op w"]
  show ?case by simp
qed


lemma flaky_ready: "ready flakyGateway pollWorld"
  by (simp add: ready_def getPingChannelId_def truthy_def pollWorld_def pollState_def demoConfig_def
        flakyGateway_def demoFetch_def)

lemma runBlocks_step_Return:
  "milestone gw ch k c m w = (Return (), w1) \<Longrightarrow> runBlocks gw ch ((k, c, m) # bs) w = runBlocks gw ch bs w1"
  by simp

lemma runBlocks_step_Throw:
  "milestone gw ch k c m w = (Throw, w1) \<Longrightarrow> runBlocks gw ch ((k, c, m) # bs) w = (Throw, w1)"
  by simp

lemma flaky_run:
  "snd (runCheck flakyGateway 1736726400000 (Some [demoEvent]) pollWorld) =
   pollWorld\<lparr>mem := pollState\<lparr>flags := [makeKey ''AOO_REG'' demoEvent ''open_at_start'' \<mapsto> True]\<rparr>,
             disk := pollState\<lparr>flags := [makeKey ''AOO_REG'' demoEvent ''open_at_start'' \<mapsto> True]\<rparr>,
             saves := 2,
             outbox := [\<lparr>toChannel = ''100'', body = PING @ [CHR 0x0A] @ aooOpenMsg demoConfig, delivered = True\<rparr>,
                        \<lparr>toChannel = ''100'', body = PING @ [CHR 0x0A] @ aooClosedMsg, delivered = False\<rparr>]\<rparr>"
proof -
  let ?kO = "makeKey ''AOO_REG'' demoEvent ''open_at_start''"
  let ?kW = "makeKey ''AOO_REG'' demoEvent ''6h_before_end''"
  let ?kC = "makeKey ''AOO_REG'' demoEvent ''closed_at_end''"
  let ?w1 = "pollWorld\<lparr>mem := pollState\<lparr>flags := [?kO \<mapsto> True]\<rparr>,
             disk := pollState\<lparr>flags := [?kO \<mapsto> True]\<rparr>, saves := 2,
             outbox := [\<lparr>toChannel = ''100'', body = PING @ [CHR 0x0A] @ aooOpenMsg demoConfig, delivered = True\<rparr>]\<rparr>"
  from runCheck_ready[OF flaky_ready, of 1736726400000 "[demoEvent]"] obtain ch where
    ch: "getPingChannelId (config (mem pollWorld)) None = Some ch" and
    eq: "snd (runCheck flakyGateway 1736726400000 (Some [demoEvent]) pollWorld) =
           snd (runBlocks flakyGateway ch (blocks (config (mem pollWorld)) 1736726400000 [demoEvent]) pollWorld)"
    by blast
  have ch100: "ch = ''100''"
    using ch by (simp add: getPingChannelId_def truthy_def pollWorld_def pollState_def demoConfig_def)
  have cfg: "config (mem pollWorld) = demoConfig"
    by (simp add: pollWorld_def pollState_def)
  have bs: "blocks demoConfig 1736726400000 [demoEvent] =
      [(?kO, True, aooOpenMsg demoConfig), (?kW, False, aooWarnMsg), (?kC, True, aooClosedMsg)]"
    by (simp add: blocks_def stones_single[OF demo_kind] demo_times)
  have m1: "milestone flakyGateway ''100'' ?kO True (aooOpenMsg demoConfig) pollWorld = (Return (), ?w1)"
    by (simp add: milestone_def send_def saveState_def flagSet_def flakyGateway_def pollWorld_def
          pollState_def Let_def)
  have m2: "milestone flakyGateway ''100'' ?kW False aooWarnMsg ?w1 = (Return (), ?w1)"
    by (simp add: milestone_skip)
  have ne: "?kC \<noteq> ?kO"
    by (simp add: makeKey_def Let_def)
  have m3: "milestone flakyGateway ''100'' ?kC True aooClosedMsg ?w1 =
      (Throw, ?w1\<lparr>outbox := outbox ?w1 @ [\<lparr>toChannel = ''100'', body = PING @ [CHR 0x0A] @ aooClosedMsg, delivered = False\<rparr>]\<rparr>)"
    using ne
    by (simp add: milestone_def send_def flagSet_def flakyGateway_def pollWorld_def pollState_def Let_def)
  let ?w2 = "?w1\<lparr>outbox := outbox ?w1 @ [\<lparr>toChannel = ''100'', body = PING @ [CHR 0x0A] @ aooClosedMsg, delivered = False\<rparr>]\<rparr>"
  have r1: "runBlocks flakyGateway ''100''
      [(?kO, True, aooOpenMsg demoConfig), (?kW, False, aooWarnMsg), (?kC, True, aooClosedMsg)] pollWorld = (Throw, ?w2)"
    unfolding runBlocks_step_Return[OF m1] runBlocks_step_Return[OF m2]
    by (rule runBlocks_step_Throw[OF m3])
  have fin: "?w2 = pollWorld\<lparr>mem := pollState\<lparr>flags := [?kO \<mapsto> True]\<rparr>,
             disk := pollState\<lparr>flags := [?kO \<mapsto> True]\<rparr>, saves := 2,
             outbox := [\<lparr>toChannel = ''100'', body = PING @ [CHR 0x0A] @ aooOpenMsg demoConfig, delivered = True\<rparr>,
                        \<lparr>toChannel = ''100'', body = PING @ [CHR 0x0A] @ aooClosedMsg, delivered = False\<rparr>]\<rparr>"
    by simp
  show ?thesis
    unfolding eq ch100 cfg bs r1 snd_conv by (rule fin)
qed


text \<open>
  C3. A milestone flag that is set in the state, in memory and in the file, stays set through
  every operation on the state, in any number and order: restarts, configuration commands,
  polls, sweeps, scheduling, cancelling and menu interactions. Every message that a later
  poll sends belongs to a milestone of the feed with another key, whose own flag was not set
  when that poll began; so a poll on the event sends no message for the flagged milestone.
\<close>

theorem flag_stays_set_and_silences_milestone:
  assumes "flagSet (mem w) k" and "flagSet (disk w) k"
  shows "flagSet (mem (performAll ops w)) k \<and> flagSet (disk (performAll ops w)) k \<and>
     (\<forall>a\<in>set (fresh (performAll ops w) (snd (runCheck gw now feed (performAll ops w)))).
        \<exists>evs. feed = Some evs \<and>
          (\<exists>(ev, K, m)\<in>set (stones evs). flagKey K m ev \<noteq> k \<and>
              \<not> flagSet (mem (performAll ops w)) (flagKey K m ev) \<and>
              tableTrigger K m (evStart ev) (evEnd ev) now \<and>
              body a = announcement (config (mem (performAll ops w))) K m)) \<and>
     (\<forall>ev K m. windowKindOf ev = Some K \<and> flagKey K m ev = k \<longrightarrow>
        announcement (config (mem (performAll ops w))) K m \<notin>
          set (map body (fresh (performAll ops w)
                 (snd (runCheck gw now (Some [ev]) (performAll ops w))))))"
proof -
  let ?w = "performAll ops w"
  have keep: "flagSet (mem ?w) k" "flagSet (disk ?w) k"
    using performAll_keeps_flag[OF assms, of ops] by simp_all
  have origin: "\<exists>evs. feed' = Some evs \<and>
          (\<exists>(ev, K, m)\<in>set (stones evs). flagKey K m ev \<noteq> k \<and>
              \<not> flagSet (mem ?w) (flagKey K m ev) \<and>
              tableTrigger K m (evStart ev) (evEnd ev) now \<and>
              body a = announcement (config (mem ?w)) K m)"
    if a: "a \<in> set (fresh ?w (snd (runCheck gw now feed' ?w)))" for a feed'
  proof -
    from runCheck_attempts[OF a] obtain evs x where
      f: "feed' = Some evs" and x: "x \<in> set (stones evs)" "\<not> flagSet (mem ?w) (keyOf x)"
      "triggered now x" "body a = textOf (config (mem ?w)) x"
      by blast
    obtain ev K m where xe: "x = (ev, K, m)" by (cases x)
    have "flagKey K m ev \<noteq> k" using x(2) keep(1) xe by auto
    with f x xe show ?thesis by auto
  qed
  have silent: "announcement (config (mem ?w)) K m \<notin>
          set (map body (fresh ?w (snd (runCheck gw now (Some [ev]) ?w))))"
    if K: "windowKindOf ev = Some K" and km: "flagKey K m ev = k" for ev K m
  proof
    assume "announcement (config (mem ?w)) K m \<in>
          set (map body (fresh ?w (snd (runCheck gw now (Some [ev]) ?w))))"
    then obtain a where a: "a \<in> set (fresh ?w (snd (runCheck gw now (Some [ev]) ?w)))"
      and b: "body a = announcement (config (mem ?w)) K m" by auto
    from origin[OF a] obtain ev' K' m' where
      x: "(ev', K', m') \<in> set (stones [ev])" "flagKey K' m' ev' \<noteq> k"
         "body a = announcement (config (mem ?w)) K' m'"
      by auto
    from x(1) have e: "ev' = ev" "K' = K"
      by (auto simp: stones_single[OF K])
    from x(3) b have "messageOf (config (mem ?w)) K m' = messageOf (config (mem ?w)) K m"
      unfolding e by (simp add: announcement_def)
    then have "m' = m" by (rule messageOf_inj)
    with x(2) km e show False by simp
  qed
  from keep origin silent show ?thesis by blast
qed


theorem flag_stays_set_and_silences_milestone_witness:
  "flagSet (mem openedWorld) ''AOO_REG_E1_2025-01-10_open_at_start'' \<and>
   flagSet (disk openedWorld) ''AOO_REG_E1_2025-01-10_open_at_start'' \<and>
   flagKey RegistrationWindow Opened demoEvent = ''AOO_REG_E1_2025-01-10_open_at_start'' \<and>
   flagSet (mem (performAll [Sweep deadGateway 5, Restart, Poll demoGateway 1736467200000 (Some [demoEvent])]
                   openedWorld)) ''AOO_REG_E1_2025-01-10_open_at_start'' \<and>
   announcement (config (mem (performAll [Sweep deadGateway 5, Restart,
                    Poll demoGateway 1736467200000 (Some [demoEvent])] openedWorld)))
       RegistrationWindow Opened \<notin>
     set (map body (fresh (performAll [Sweep deadGateway 5, Restart,
                              Poll demoGateway 1736467200000 (Some [demoEvent])] openedWorld)
            (snd (runCheck demoGateway 1736553600000 (Some [demoEvent])
                    (performAll [Sweep deadGateway 5, Restart,
                       Poll demoGateway 1736467200000 (Some [demoEvent])] openedWorld)))))"
proof -
  have h: "flagSet (mem openedWorld) ''AOO_REG_E1_2025-01-10_open_at_start''"
    "flagSet (disk openedWorld) ''AOO_REG_E1_2025-01-10_open_at_start''"
    by (simp_all add: flagSet_def openedWorld_def openedState_def)
  have key: "flagKey RegistrationWindow Opened demoEvent = ''AOO_REG_E1_2025-01-10_open_at_start''"
    using demo_key by simp
  from flag_stays_set_and_silences_milestone[OF h,
      of "[Sweep deadGateway 5, Restart, Poll demoGateway 1736467200000 (Some [demoEvent])]"
         demoGateway 1736553600000 "Some [demoEvent]"]
    demo_kind key h
  show ?thesis by blast
qed



lemma blocks_split:
  assumes "blocks cfg now evs = preB @ (k, c, msg) # postB"
  shows "\<exists>pre ev K m post. stones evs = pre @ (ev, K, m) # post \<and>
           preB = map (\<lambda>x. (keyOf x, triggered now x, messageOf cfg (fst (snd x)) (snd (snd x)))) pre \<and>
           k = flagKey K m ev \<and> c = tableTrigger K m (evStart ev) (evEnd ev) now \<and>
           msg = messageOf cfg K m"
proof -
  let ?f = "\<lambda>x. (keyOf x, triggered now x, messageOf cfg (fst (snd x)) (snd (snd x)))"
  from assms have "map ?f (stones evs) = preB @ (k, c, msg) # postB"
    by (simp add: blocks_stones)
  then obtain pre rest where 1: "stones evs = pre @ rest" "preB = map ?f pre"
    "(k, c, msg) # postB = map ?f rest"
    by (auto simp: map_eq_append_conv)
  from 1(3) obtain x post where 2: "rest = x # post" "(k, c, msg) = ?f x"
    by (cases rest) auto
  obtain ev K m where x: "x = (ev, K, m)" by (cases x)
  have a: "stones evs = pre @ (ev, K, m) # post"
    using 1(1) 2(1) x by simp
  have b: "k = flagKey K m ev" "c = tableTrigger K m (evStart ev) (evEnd ev) now"
    "msg = messageOf cfg K m"
    using 2(2) x by simp_all
  from a 1(2) b show ?thesis by blast
qed

lemma ready_transfer:
  assumes "config (mem w') = config (mem w)" "runCheckRunning w' = runCheckRunning w"
  shows "ready gw w' = ready gw w"
  using assms by (simp add: ready_def)

lemma dead_ready: "ready deadGateway openedWorld"
  by (simp add: ready_def getPingChannelId_def truthy_def openedWorld_def openedState_def
        pollState_def demoConfig_def deadGateway_def demoFetch_def)

lemma demo_identities: "distinct (identities [demoEvent])"
  by (simp add: identities_def)

lemma demo_keys_differ:
  "makeKey ''AOO_REG'' demoEvent ''6h_before_end'' \<noteq> makeKey ''AOO_REG'' demoEvent ''open_at_start''"
  "makeKey ''AOO_REG'' demoEvent ''closed_at_end'' \<noteq> makeKey ''AOO_REG'' demoEvent ''open_at_start''"
  "makeKey ''AOO_REG'' demoEvent ''closed_at_end'' \<noteq> makeKey ''AOO_REG'' demoEvent ''6h_before_end''"
  by (simp_all add: makeKey_def Let_def)

lemma dead_run:
  "snd (runCheck deadGateway 1736639700000 (Some [demoEvent]) openedWorld) =
   openedWorld\<lparr>outbox := [\<lparr>toChannel = ''100'', body = PING @ [CHR 0x0A] @ aooWarnMsg,
                              delivered = False\<rparr>]\<rparr>"
proof -
  let ?kO = "makeKey ''AOO_REG'' demoEvent ''open_at_start''"
  let ?kW = "makeKey ''AOO_REG'' demoEvent ''6h_before_end''"
  let ?kC = "makeKey ''AOO_REG'' demoEvent ''closed_at_end''"
  from runCheck_ready[OF dead_ready, of 1736639700000 "[demoEvent]"] obtain ch where
    ch: "getPingChannelId (config (mem openedWorld)) None = Some ch" and
    eq: "snd (runCheck deadGateway 1736639700000 (Some [demoEvent]) openedWorld) =
           snd (runBlocks deadGateway ch (blocks (config (mem openedWorld)) 1736639700000 [demoEvent]) openedWorld)"
    by blast
  have ch100: "ch = ''100''"
    using ch by (simp add: getPingChannelId_def truthy_def openedWorld_def openedState_def
          pollState_def demoConfig_def)
  have cfg: "config (mem openedWorld) = demoConfig"
    by (simp add: openedWorld_def openedState_def pollState_def)
  have bs: "blocks demoConfig 1736639700000 [demoEvent] =
      [(?kO, True, aooOpenMsg demoConfig), (?kW, True, aooWarnMsg), (?kC, False, aooClosedMsg)]"
    by (simp add: blocks_def stones_single[OF demo_kind] demo_times)
  have fO: "flagSet (mem openedWorld) ?kO"
    unfolding demo_key by (simp add: flagSet_def openedWorld_def openedState_def)
  have m1: "milestone deadGateway ''100'' ?kO True (aooOpenMsg demoConfig) openedWorld =
      (Return (), openedWorld)"
    using fO by (simp add: milestone_skip)
  have fW: "\<not> flagSet (mem openedWorld) ?kW"
    using demo_keys_differ(1) unfolding demo_key
    by (simp add: flagSet_def openedWorld_def openedState_def)
  have m2: "milestone deadGateway ''100'' ?kW True aooWarnMsg openedWorld =
      (Throw, openedWorld\<lparr>outbox := [\<lparr>toChannel = ''100'', body = PING @ [CHR 0x0A] @ aooWarnMsg,
                              delivered = False\<rparr>]\<rparr>)"
    using fW
    by (simp add: milestone_def send_def deadGateway_def Let_def) (simp add: openedWorld_def)
  have r1: "runBlocks deadGateway ''100''
      [(?kO, True, aooOpenMsg demoConfig), (?kW, True, aooWarnMsg), (?kC, False, aooClosedMsg)]
      openedWorld =
      (Throw, openedWorld\<lparr>outbox := [\<lparr>toChannel = ''100'', body = PING @ [CHR 0x0A] @ aooWarnMsg,
                              delivered = False\<rparr>]\<rparr>)"
    unfolding runBlocks_step_Return[OF m1]
    by (rule runBlocks_step_Throw[OF m2])
  show ?thesis
    unfolding eq ch100 cfg bs r1 snd_conv by (rule refl)
qed

text \<open>
  C4. When a send of a poll cycle fails, it is the last thing the cycle does: the trace ends
  with the failed attempt and everything before it was delivered. The cycle stopped at a
  milestone whose trigger holds; the flags set are exactly the earlier ones and those of the
  triggered milestones visited before it, each of the new ones saved to the file, and the
  failed milestone's flag is not set. The cycle leaves the guard lowered and the configuration
  as it was, so a later poll can start whenever one could before. A later poll, at any time
  and over any feed, with a gateway that delivers, sets the flags and sends the messages of
  the milestones that are unflagged after the failed cycle and whose trigger holds at the later
  poll's own \<open>now\<close>; at the same \<open>now\<close> over the same feed it ends in the state that an
  undisturbed cycle would have reached, and the two cycles together deliver the messages of
  that undisturbed cycle, each once.
\<close>

theorem failed_send_aborts_cycle:
  assumes "ready gw w" and "a \<in> set (fresh w (snd (runCheck gw now (Some evs) w)))"
    and "\<not> delivered a"
  shows "let w' = snd (runCheck gw now (Some evs) w) in
     \<exists>pre ev K m post.
       stones evs = pre @ (ev, K, m) # post \<and>
       tableTrigger K m (evStart ev) (evEnd ev) now \<and>
       \<not> flagSet (mem w') (flagKey K m ev) \<and>
       a = last (fresh w w') \<and>
       body a = announcement (config (mem w)) K m \<and>
       (\<forall>b\<in>set (butlast (fresh w w')). delivered b) \<and>
       (\<forall>k. flagSet (mem w') k =
            (flagSet (mem w) k \<or>
             (\<exists>(ev', K', m')\<in>set pre. flagKey K' m' ev' = k \<and>
                 tableTrigger K' m' (evStart ev') (evEnd ev') now))) \<and>
       (\<forall>k. flagSet (mem w') k \<and> \<not> flagSet (mem w) k \<longrightarrow> flagSet (disk w') k) \<and>
       \<not> runCheckRunning w' \<and> config (mem w') = config (mem w) \<and>
       (\<forall>gw2. ready gw2 w' = ready gw2 w) \<and>
       (\<forall>gw2 now2 evs2. ready gw2 w \<and> reliable gw2 \<longrightarrow>
          (\<forall>k. flagSet (mem (snd (runCheck gw2 now2 (Some evs2) w'))) k =
               (flagSet (mem w') k \<or>
                (\<exists>(ev', K', m')\<in>set (stones evs2). flagKey K' m' ev' = k \<and>
                    tableTrigger K' m' (evStart ev') (evEnd ev') now2))) \<and>
          (distinct (identities evs2) \<longrightarrow>
             map body (fresh w' (snd (runCheck gw2 now2 (Some evs2) w'))) =
               map (\<lambda>(ev', K', m'). announcement (config (mem w)) K' m')
                 (filter (\<lambda>(ev', K', m'). \<not> flagSet (mem w') (flagKey K' m' ev') \<and>
                            tableTrigger K' m' (evStart ev') (evEnd ev') now2) (stones evs2)))) \<and>
       (\<forall>gw2. ready gw2 w \<and> reliable gw2 \<longrightarrow>
          mem (snd (runCheck gw2 now (Some evs) w')) = mem (snd (runCheck gw2 now (Some evs) w)) \<and>
          map body (filter delivered (fresh w (snd (runCheck gw2 now (Some evs) w')))) =
            map body (fresh w (snd (runCheck gw2 now (Some evs) w))))"
proof -
  let ?w' = "snd (runCheck gw now (Some evs) w)"
  let ?cfg = "config (mem w)"
  let ?bs = "blocks ?cfg now evs"
  from runCheck_ready[OF assms(1), of now evs] obtain ch where
    ch: "getPingChannelId ?cfg None = Some ch" and
    eq: "?w' = snd (runBlocks gw ch ?bs w)"
    by blast
  have thrown: "runBlocks gw ch ?bs w = (Throw, ?w')"
  proof (cases "fst (runBlocks gw ch ?bs w)")
    case Throw
    then show ?thesis unfolding eq by (metis prod.collapse)
  next
    case (Return u)
    then have "runBlocks gw ch ?bs w = (Return (), snd (runBlocks gw ch ?bs w))"
      by (metis prod.collapse old.unit.exhaust)
    from runBlocks_Return[OF this] assms(2,3) show ?thesis
      unfolding eq by blast
  qed
  from runBlocks_Throw[OF thrown] obtain preB k c msg postB w1 where
    bs: "?bs = preB @ (k, c, msg) # postB" and
    pre: "runBlocks gw ch preB w = (Return (), w1)" and
    nk: "\<not> flagSet (mem w1) k" and c: "c" and
    w': "?w' = w1\<lparr>outbox := outbox w1 @
                  [\<lparr>toChannel = ch, body = PING @ [CHR 0x0A] @ msg, delivered = False\<rparr>]\<rparr>"
    by blast
  from blocks_split[OF bs] obtain pre' ev K m post where
    st: "stones evs = pre' @ (ev, K, m) # post" and
    preB: "preB = map (\<lambda>x. (keyOf x, triggered now x, messageOf ?cfg (fst (snd x)) (snd (snd x)))) pre'" and
    k: "k = flagKey K m ev" and c': "c = tableTrigger K m (evStart ev) (evEnd ev) now" and
    msg: "msg = messageOf ?cfg K m"
    by blast
  have memw': "mem ?w' = mem w1" by (subst w') simp
  obtain a0 where a0: "outbox w1 = outbox w @ a0"
    using runBlocks_outbox[of gw ch preB w] pre by auto
  note R = runBlocks_Return[OF pre]
  have d0: "\<forall>b\<in>set a0. delivered b"
    using R fresh_append[OF a0] by simp
  have fr: "fresh w ?w' = a0 @ [\<lparr>toChannel = ch, body = PING @ [CHR 0x0A] @ msg, delivered = False\<rparr>]"
    by (subst w') (simp add: fresh_def a0)
  have a_is: "a = \<lparr>toChannel = ch, body = PING @ [CHR 0x0A] @ msg, delivered = False\<rparr>"
    using assms(2,3) d0 unfolding fr by auto
  have 1: "tableTrigger K m (evStart ev) (evEnd ev) now" using c c' by simp
  have 2: "\<not> flagSet (mem ?w') (flagKey K m ev)" using nk k memw' by simp
  have 3: "a = last (fresh w ?w')" unfolding fr a_is by simp
  have 4: "body a = announcement ?cfg K m" unfolding a_is msg by (simp add: announcement_def)
  have 5: "\<forall>b\<in>set (butlast (fresh w ?w')). delivered b" unfolding fr using d0 by simp
  have 6: "\<forall>k. flagSet (mem ?w') k =
          (flagSet (mem w) k \<or>
           (\<exists>(ev', K', m')\<in>set pre'. flagKey K' m' ev' = k \<and>
               tableTrigger K' m' (evStart ev') (evEnd ev') now))"
  proof
    fix k'
    have "flagSet (mem ?w') k' = (flagSet (mem w) k' \<or> (\<exists>(k'', c, m)\<in>set preB. k'' = k' \<and> c))"
      using R memw' by simp
    also have "(\<exists>(k'', c, m)\<in>set preB. k'' = k' \<and> c) =
               (\<exists>x\<in>set pre'. keyOf x = k' \<and> triggered now x)"
      unfolding preB by auto
    also have "\<dots> = (\<exists>(ev', K', m')\<in>set pre'. flagKey K' m' ev' = k' \<and>
               tableTrigger K' m' (evStart ev') (evEnd ev') now)"
      by (rule bex_cong[OF refl]) auto
    finally show "flagSet (mem ?w') k' =
          (flagSet (mem w) k' \<or>
           (\<exists>(ev', K', m')\<in>set pre'. flagKey K' m' ev' = k' \<and>
               tableTrigger K' m' (evStart ev') (evEnd ev') now))" .
  qed
  have 7: "\<forall>k. flagSet (mem ?w') k \<and> \<not> flagSet (mem w) k \<longrightarrow> flagSet (disk ?w') k"
    using runBlocks_effect[of gw ch ?bs w] unfolding eq by blast
  have cfg': "config (mem ?w') = ?cfg" unfolding eq by simp
  have rcr: "runCheckRunning ?w' = runCheckRunning w"
    using runBlocks_effect[of gw ch ?bs w] unfolding eq by blast
  have 9: "\<not> runCheckRunning ?w'"
    using rcr assms(1) by (simp add: ready_def)
  have 10: "\<forall>gw2. ready gw2 ?w' = ready gw2 w"
    using ready_transfer[OF cfg' rcr] by simp
  have 11: "(\<forall>k. flagSet (mem (snd (runCheck gw2 now2 (Some evs2) ?w'))) k =
               (flagSet (mem ?w') k \<or>
                (\<exists>(ev', K', m')\<in>set (stones evs2). flagKey K' m' ev' = k \<and>
                    tableTrigger K' m' (evStart ev') (evEnd ev') now2))) \<and>
          (distinct (identities evs2) \<longrightarrow>
             map body (fresh ?w' (snd (runCheck gw2 now2 (Some evs2) ?w'))) =
               map (\<lambda>(ev', K', m'). announcement ?cfg K' m')
                 (filter (\<lambda>(ev', K', m'). \<not> flagSet (mem ?w') (flagKey K' m' ev') \<and>
                            tableTrigger K' m' (evStart ev') (evEnd ev') now2) (stones evs2)))"
    if g2: "ready gw2 w \<and> reliable gw2" for gw2 now2 evs2
  proof -
    from g2 10 have "ready gw2 ?w'" "reliable gw2" by simp_all
    from poll_reliable_feed[OF this, of now2 evs2] show ?thesis
      unfolding cfg' by blast
  qed
  have 8: "mem (snd (runCheck gw2 now (Some evs) ?w')) = mem (snd (runCheck gw2 now (Some evs) w)) \<and>
        map body (filter delivered (fresh w (snd (runCheck gw2 now (Some evs) ?w')))) =
          map body (fresh w (snd (runCheck gw2 now (Some evs) w)))"
    if g2: "ready gw2 w \<and> reliable gw2" for gw2
  proof -
    from g2 have r: "ready gw2 w" and rel: "reliable gw2" by simp_all
    have r': "ready gw2 ?w'" using r 10 by simp
    from runCheck_ready[OF r, of now evs] ch have
      e1: "snd (runCheck gw2 now (Some evs) w) = snd (runBlocks gw2 ch ?bs w)"
      by auto
    from runCheck_ready[OF r', of now evs] ch have
      e2: "snd (runCheck gw2 now (Some evs) ?w') = snd (runBlocks gw2 ch ?bs ?w')"
      unfolding cfg' by auto
    show ?thesis
      unfolding e1 e2 using runBlocks_retry[OF thrown rel] .
  qed
  from st 1 2 3 4 5 6 7 9 cfg' 10 11 8 show ?thesis
    unfolding Let_def by blast
qed

theorem failed_send_aborts_cycle_witness:
  "ready flakyGateway pollWorld \<and>
   fresh pollWorld (snd (runCheck flakyGateway 1736726400000 (Some [demoEvent]) pollWorld)) =
     [\<lparr>toChannel = ''100'', body = PING @ [CHR 0x0A] @ aooOpenMsg demoConfig, delivered = True\<rparr>,
      \<lparr>toChannel = ''100'', body = PING @ [CHR 0x0A] @ aooClosedMsg, delivered = False\<rparr>] \<and>
   flagSet (disk (snd (runCheck flakyGateway 1736726400000 (Some [demoEvent]) pollWorld)))
     (makeKey ''AOO_REG'' demoEvent ''open_at_start'') \<and>
   \<not> flagSet (mem (snd (runCheck flakyGateway 1736726400000 (Some [demoEvent]) pollWorld)))
     (makeKey ''AOO_REG'' demoEvent ''closed_at_end'') \<and>
   ready demoGateway (snd (runCheck flakyGateway 1736726400000 (Some [demoEvent]) pollWorld)) \<and>
   map body (fresh (snd (runCheck flakyGateway 1736726400000 (Some [demoEvent]) pollWorld))
      (snd (runCheck demoGateway 1736812800000 (Some [demoEvent])
             (snd (runCheck flakyGateway 1736726400000 (Some [demoEvent]) pollWorld))))) =
     [announcement demoConfig RegistrationWindow Closed] \<and>
   mem (snd (runCheck demoGateway 1736726400000 (Some [demoEvent])
          (snd (runCheck flakyGateway 1736726400000 (Some [demoEvent]) pollWorld)))) =
     mem (snd (runCheck demoGateway 1736726400000 (Some [demoEvent]) pollWorld))"
proof -
  let ?wF = "snd (runCheck flakyGateway 1736726400000 (Some [demoEvent]) pollWorld)"
  let ?a = "\<lparr>toChannel = ''100'', body = PING @ [CHR 0x0A] @ aooClosedMsg, delivered = False\<rparr>"
  let ?kO = "makeKey ''AOO_REG'' demoEvent ''open_at_start''"
  let ?kW = "makeKey ''AOO_REG'' demoEvent ''6h_before_end''"
  let ?kC = "makeKey ''AOO_REG'' demoEvent ''closed_at_end''"
  have fr: "fresh pollWorld ?wF =
     [\<lparr>toChannel = ''100'', body = PING @ [CHR 0x0A] @ aooOpenMsg demoConfig, delivered = True\<rparr>, ?a]"
    by (simp add: flaky_run fresh_def) (simp add: pollWorld_def)
  have a: "?a \<in> set (fresh pollWorld ?wF)" "\<not> delivered ?a"
    unfolding fr by simp_all
  have fl: "flagSet (disk ?wF) ?kO" "\<not> flagSet (mem ?wF) ?kC" "flagSet (mem ?wF) ?kO"
    using demo_keys_differ by (simp_all add: flaky_run flagSet_def)
  have cfg: "config (mem pollWorld) = demoConfig"
    by (simp add: pollWorld_def pollState_def)
  note T = failed_send_aborts_cycle[OF flaky_ready a, unfolded Let_def]
  from T demo_ready have r2: "ready demoGateway ?wF"
    by blast
  from T demo_ready demo_reliable demo_identities have
    "map body (fresh ?wF (snd (runCheck demoGateway 1736812800000 (Some [demoEvent]) ?wF))) =
       map (\<lambda>(ev', K', m'). announcement (config (mem pollWorld)) K' m')
         (filter (\<lambda>(ev', K', m'). \<not> flagSet (mem ?wF) (flagKey K' m' ev') \<and>
                    tableTrigger K' m' (evStart ev') (evEnd ev') 1736812800000) (stones [demoEvent]))"
    by blast
  then have later: "map body (fresh ?wF (snd (runCheck demoGateway 1736812800000 (Some [demoEvent]) ?wF))) =
     [announcement demoConfig RegistrationWindow Closed]"
    unfolding stones_single[OF demo_kind] cfg using fl
    by (simp add: demo_times)
  from T demo_ready demo_reliable
  have "mem (snd (runCheck demoGateway 1736726400000 (Some [demoEvent]) ?wF)) =
     mem (snd (runCheck demoGateway 1736726400000 (Some [demoEvent]) pollWorld))"
    by blast
  with flaky_ready fr fl r2 later show ?thesis by blast
qed

text \<open>
  The failed milestone is not eligible again on every next poll. In the example the opened
  milestone has fired; a poll five minutes before the end of the window attempts the warning
  and the send fails. The next poll, ten minutes later with a working gateway, sends the closed
  message only: the trigger of the warning no longer holds, so the warning is never sent.
\<close>

theorem failed_warning_never_retried_counterexample:
  "ready deadGateway openedWorld \<and> ready demoGateway openedWorld \<and> reliable demoGateway \<and>
   tableTrigger RegistrationWindow Warning (evStart demoEvent) (evEnd demoEvent) 1736639700000 \<and>
   fresh openedWorld (snd (runCheck deadGateway 1736639700000 (Some [demoEvent]) openedWorld)) =
     [\<lparr>toChannel = ''100'', body = announcement demoConfig RegistrationWindow Warning,
       delivered = False\<rparr>] \<and>
   \<not> flagSet (mem (snd (runCheck deadGateway 1736639700000 (Some [demoEvent]) openedWorld)))
       (flagKey RegistrationWindow Warning demoEvent) \<and>
   map body (fresh (snd (runCheck deadGateway 1736639700000 (Some [demoEvent]) openedWorld))
      (snd (runCheck demoGateway 1736640300000 (Some [demoEvent])
             (snd (runCheck deadGateway 1736639700000 (Some [demoEvent]) openedWorld))))) =
     [announcement demoConfig RegistrationWindow Closed] \<and>
   \<not> flagSet (mem (snd (runCheck demoGateway 1736640300000 (Some [demoEvent])
             (snd (runCheck deadGateway 1736639700000 (Some [demoEvent]) openedWorld)))))
       (flagKey RegistrationWindow Warning demoEvent)"
proof -
  let ?w1 = "snd (runCheck deadGateway 1736639700000 (Some [demoEvent]) openedWorld)"
  let ?w2 = "snd (runCheck demoGateway 1736640300000 (Some [demoEvent]) ?w1)"
  let ?kO = "makeKey ''AOO_REG'' demoEvent ''open_at_start''"
  let ?kW = "makeKey ''AOO_REG'' demoEvent ''6h_before_end''"
  let ?kC = "makeKey ''AOO_REG'' demoEvent ''closed_at_end''"
  have r0: "ready demoGateway openedWorld"
    by (simp add: ready_def getPingChannelId_def truthy_def openedWorld_def openedState_def
        pollState_def demoConfig_def demoGateway_def demoFetch_def)
  have t: "tableTrigger RegistrationWindow Warning (evStart demoEvent) (evEnd demoEvent) 1736639700000"
    by (simp add: demo_times)
  have fr: "fresh openedWorld ?w1 =
     [\<lparr>toChannel = ''100'', body = announcement demoConfig RegistrationWindow Warning,
       delivered = False\<rparr>]"
    unfolding dead_run by (simp add: fresh_def announcement_def) (simp add: openedWorld_def)
  have mem1: "mem ?w1 = openedState"
    unfolding dead_run by (simp add: openedWorld_def)
  have fl: "flagSet openedState ?kO" "\<not> flagSet openedState ?kW" "\<not> flagSet openedState ?kC"
    using demo_keys_differ unfolding demo_key
    by (simp_all add: flagSet_def openedState_def)
  have r1: "ready demoGateway ?w1"
    unfolding dead_run
    by (simp add: ready_def getPingChannelId_def truthy_def openedWorld_def openedState_def
        pollState_def demoConfig_def demoGateway_def demoFetch_def)
  have cfg: "config openedState = demoConfig"
    by (simp add: openedState_def pollState_def)
  note P = poll_reliable_feed[OF r1 demo_reliable, of 1736640300000 "[demoEvent]"]
  from P demo_identities have
    "map body (fresh ?w1 ?w2) =
       map (\<lambda>(ev, K, m). announcement (config (mem ?w1)) K m)
         (filter (\<lambda>(ev, K, m). \<not> flagSet (mem ?w1) (flagKey K m ev) \<and>
                    tableTrigger K m (evStart ev) (evEnd ev) 1736640300000) (stones [demoEvent]))"
    by blast
  then have sent: "map body (fresh ?w1 ?w2) = [announcement demoConfig RegistrationWindow Closed]"
    unfolding mem1 stones_single[OF demo_kind] using fl
    by (simp add: demo_times cfg)
  from P have "flagSet (mem ?w2) (flagKey RegistrationWindow Warning demoEvent) =
       (flagSet (mem ?w1) (flagKey RegistrationWindow Warning demoEvent) \<or>
        (\<exists>(ev, K, m)\<in>set (stones [demoEvent]).
            flagKey K m ev = flagKey RegistrationWindow Warning demoEvent \<and>
            tableTrigger K m (evStart ev) (evEnd ev) 1736640300000))"
    by blast
  then have nf2: "\<not> flagSet (mem ?w2) (flagKey RegistrationWindow Warning demoEvent)"
    unfolding mem1 stones_single[OF demo_kind] using fl demo_keys_differ
    by (simp add: demo_times)
  have nf1: "\<not> flagSet (mem ?w1) (flagKey RegistrationWindow Warning demoEvent)"
    unfolding mem1 using fl by simp
  from dead_ready r0 demo_reliable t fr nf1 sent nf2 show ?thesis by blast
qed

end
